theory Spec2Isabelle
  imports Main "HOL-Library.Word"
begin

section \<open>JavaScript values used by the dashboard\<close>

text \<open>
  A JavaScript string is a sequence of UTF-16 code units; \<open>length\<close> and the regular
  expression of the topic form (which has no \<open>u\<close> flag) both work on code units.
\<close>

type_synonym js_string = "16 word list"

definition utf16 :: "string \<Rightarrow> js_string" where
  "utf16 s = map (\<lambda>c. of_nat (of_char c)) s"

text \<open>
  The numbers of the topic form come from the initial state (the literal 3) or from
  \<open>parseInt(value, 10)\<close>: they are NaN or an integer. The result of \<open>parseInt\<close> is the
  double nearest to the integer read; rounding is monotone and 1 is a double, so
  \<open>x < 1\<close> on the double is \<open>x < 1\<close> on the integer, the only way the form reads it.
\<close>

datatype js_number = NaN | Num int

fun js_lt :: "js_number \<Rightarrow> js_number \<Rightarrow> bool" where
  "js_lt (Num a) (Num b) = (a < b)"
| "js_lt _ _ = False"

definition StrWhiteSpaceChar :: "16 word \<Rightarrow> bool" where
  "StrWhiteSpaceChar c \<longleftrightarrow>
     c \<in> {0x0009, 0x000A, 0x000B, 0x000C, 0x000D, 0x0020, 0x00A0, 0x1680,
          0x2028, 0x2029, 0x202F, 0x205F, 0x3000, 0xFEFF}
     \<or> (0x2000 \<le> c \<and> c \<le> 0x200A)"

definition is_digit :: "16 word \<Rightarrow> bool" where
  "is_digit c \<longleftrightarrow> 0x30 \<le> c \<and> c \<le> 0x39"

fun digits_value :: "nat \<Rightarrow> js_string \<Rightarrow> nat" where
  "digits_value acc [] = acc"
| "digits_value acc (c # cs) = digits_value (acc * 10 + (unat c - 0x30)) cs"

definition parseInt :: "js_string \<Rightarrow> js_number" where
  \<comment> \<open>\<open>parseInt(s, 10)\<close>: skip white space, read a sign, read the longest run of digits.\<close>
  "parseInt s =
     (let S = dropWhile StrWhiteSpaceChar s;
          neg = (case S of [] \<Rightarrow> False | c # _ \<Rightarrow> c = 0x2D);
          S1 = (case S of [] \<Rightarrow> [] | c # cs \<Rightarrow> if c = 0x2B \<or> c = 0x2D then cs else S);
          Z = takeWhile is_digit S1
      in if Z = [] then NaN
         else Num ((if neg then - 1 else 1) * int (digits_value 0 Z)))"

section \<open>The create-topic form (Topics page)\<close>

record new_topic =
  name :: js_string
  partitions :: js_number
  replication :: js_number

text \<open>The three inputs of the dialog, by their \<open>name\<close> attribute.\<close>

datatype field = FName | FPartitions | FReplication

definition handleOpenDialog :: new_topic where
  "handleOpenDialog = \<lparr>name = [], partitions = Num 3, replication = Num 3\<rparr>"

fun handleInputChange :: "new_topic \<Rightarrow> field \<Rightarrow> js_string \<Rightarrow> new_topic" where
  "handleInputChange t FName v = t\<lparr>name := v\<rparr>"
| "handleInputChange t FPartitions v = t\<lparr>partitions := parseInt v\<rparr>"
| "handleInputChange t FReplication v = t\<lparr>replication := parseInt v\<rparr>"

definition name_char :: "16 word \<Rightarrow> bool" where
  \<comment> \<open>the character class \<open>[a-zA-Z0-9._-]\<close>\<close>
  "name_char c \<longleftrightarrow>
     (0x61 \<le> c \<and> c \<le> 0x7A) \<or> (0x41 \<le> c \<and> c \<le> 0x5A) \<or> (0x30 \<le> c \<and> c \<le> 0x39)
     \<or> c = 0x2E \<or> c = 0x5F \<or> c = 0x2D"

definition regex_test :: "js_string \<Rightarrow> bool" where
  \<comment> \<open>\<open>/^[a-zA-Z0-9._-]+$/.test(s)\<close>\<close>
  "regex_test s \<longleftrightarrow> s \<noteq> [] \<and> list_all name_char s"

text \<open>
  \<open>validateForm\<close> returns its boolean and the message it passes to \<open>setFormError\<close>
  (\<open>None\<close> when it does not call it).
\<close>

definition validateForm :: "new_topic \<Rightarrow> bool \<times> string option" where
  "validateForm t =
     (if name t = [] then (False, Some ''Topic name is required'')
      else if \<not> regex_test (name t) then
        (False, Some ''Topic name can only contain letters, numbers, dots, underscores, and hyphens'')
      else if js_lt (partitions t) (Num 1) then
        (False, Some ''Number of partitions must be at least 1'')
      else if js_lt (replication t) (Num 1) then
        (False, Some ''Replication factor must be at least 1'')
      else (True, None))"

text \<open>
  \<open>handleCreateTopic\<close> posts the form to the create-topic API when \<open>validateForm\<close>
  accepts it; the result is the request body sent, if any.
\<close>

definition handleCreateTopic :: "new_topic \<Rightarrow> new_topic option" where
  "handleCreateTopic t = (if \<not> fst (validateForm t) then None else Some t)"

text \<open>
  The naming grammar in the words of the specification: 1 to 249 characters, alphanumeric
  plus \<open>.\<close>, \<open>_\<close>, \<open>-\<close>, not equal to \<open>.\<close> or \<open>..\<close>, not starting with \<open>.\<close> or \<open>_\<close>.
\<close>

definition spec_naming_grammar :: "js_string \<Rightarrow> bool" where
  "spec_naming_grammar s \<longleftrightarrow>
     1 \<le> length s \<and> length s \<le> 249 \<and> list_all name_char s
     \<and> s \<noteq> [0x2E] \<and> s \<noteq> [0x2E, 0x2E]
     \<and> (case s of [] \<Rightarrow> True | c # _ \<Rightarrow> c \<noteq> 0x2E \<and> c \<noteq> 0x5F)"

text \<open>The rejection condition of the specification for a create-topic request.\<close>

definition spec_invalid_parameters :: "new_topic \<Rightarrow> bool" where
  "spec_invalid_parameters t \<longleftrightarrow>
     js_lt (partitions t) (Num 1) \<or> js_lt (replication t) (Num 1)
     \<or> \<not> spec_naming_grammar (name t)"

section \<open>The dashboard's chart history\<close>

text \<open>The fields of the metrics response that the chart reads.\<close>

record metrics =
  messages_processed :: int
  processing_errors :: int

record dataset =
  label :: string
  data :: "int list"
  borderColor :: string
  backgroundColor :: string

text \<open>\<open>datasets\<close> is an array of two datasets, \<open>datasets[0]\<close> and \<open>datasets[1]\<close>.\<close>

record chart_data =
  labels :: "string list"
  datasets0 :: dataset
  datasets1 :: dataset

definition initialChartData :: chart_data where
  "initialChartData =
     \<lparr>labels = [],
      datasets0 = \<lparr>label = ''Messages Processed'', data = [],
        borderColor = ''rgb(53, 162, 235)'', backgroundColor = ''rgba(53, 162, 235, 0.5)''\<rparr>,
      datasets1 = \<lparr>label = ''Errors'', data = [],
        borderColor = ''rgb(255, 99, 132)'', backgroundColor = ''rgba(255, 99, 132, 0.5)''\<rparr>\<rparr>"

definition slice_last :: "nat \<Rightarrow> 'a list \<Rightarrow> 'a list" where
  \<comment> \<open>\<open>xs.slice(-k)\<close>: from index \<open>max (length - k) 0\<close> to the end\<close>
  "slice_last k xs = drop (length xs - k) xs"

text \<open>\<open>now\<close> is the clock reading \<open>new Date().toLocaleTimeString()\<close> of the call.\<close>

definition updateChartData :: "string \<Rightarrow> metrics \<Rightarrow> chart_data \<Rightarrow> chart_data" where
  "updateChartData now newMetrics prevData =
     (let labels' = slice_last 10 (labels prevData @ [now]);
          messagesData = slice_last 10 (data (datasets0 prevData) @ [messages_processed newMetrics]);
          errorsData = slice_last 10 (data (datasets1 prevData) @ [processing_errors newMetrics])
      in \<lparr>labels = labels',
          datasets0 = (datasets0 prevData)\<lparr>data := messagesData\<rparr>,
          datasets1 = (datasets1 prevData)\<lparr>data := errorsData\<rparr>\<rparr>)"

text \<open>The chart after a sequence of polls, each with its clock reading and response.\<close>

definition chart_after :: "(string \<times> metrics) list \<Rightarrow> chart_data" where
  "chart_after ss = foldl (\<lambda>c (now, m). updateChartData now m c) initialChartData ss"

section \<open>The API client's response interceptor\<close>

record response =
  status :: int
  body :: string

record axios_error =
  message :: string
  response :: "response option"

record browser =
  localStorage :: "string \<rightharpoonup> string"
  location_href :: string

text \<open>
  The two handlers given to \<open>axios.interceptors.response.use\<close>. A handler returns the
  browser state it leaves and the promise it returns: \<open>Inr\<close> a response, \<open>Inl\<close> the
  rejection \<open>Promise.reject(error)\<close>.
\<close>

definition response_fulfilled :: "response \<Rightarrow> browser \<Rightarrow> browser \<times> (axios_error + response)" where
  "response_fulfilled r b = (b, Inr r)"

definition response_rejected :: "axios_error \<Rightarrow> browser \<Rightarrow> browser \<times> (axios_error + response)" where
  "response_rejected e b =
     (let b' = (if (case response e of None \<Rightarrow> False | Some r \<Rightarrow> status r = 401)
                then b\<lparr>localStorage := (localStorage b)(''user'' := None),
                       location_href := ''/admin/login''\<rparr>
                else b)
      in (b', Inl e))"

section \<open>Routing (App)\<close>

datatype page = Dashboard | StreamingStatus | Topics | StreamingApps | Help
  | AdminLogin | AdminDashboard

datatype element = Page page | Navigate string

text \<open>The routes in the order of the source; \<open>*\<close> is last.\<close>

definition routes :: "bool \<Rightarrow> (string \<times> element) list" where
  "routes isLoggedIn =
     [(''/'', Page Dashboard),
      (''/status'', Page StreamingStatus),
      (''/topics'', Page Topics),
      (''/apps'', Page StreamingApps),
      (''/help'', Page Help),
      (''/admin/login'', if isLoggedIn then Navigate ''/admin/dashboard'' else Page AdminLogin),
      (''/admin/dashboard'', if isLoggedIn then Page AdminDashboard else Navigate ''/admin/login''),
      (''*'', Navigate ''/'')]"

text \<open>
  Whether a route path matches a location is decided by the router library, which is not
  part of the repository: it is the parameter \<open>mtch\<close> (pattern, then location), asked
  about the seven static paths only; \<open>*\<close> matches every location. The router renders
  the best-ranked matching route; static paths rank above \<open>*\<close>, and the first match in
  source order is taken here.
\<close>

fun matchRoutes :: "(string \<Rightarrow> string \<Rightarrow> bool) \<Rightarrow> (string \<times> element) list \<Rightarrow> string
    \<Rightarrow> (string \<times> element) option" where
  "matchRoutes mtch [] loc = None"
| "matchRoutes mtch ((pat, el) # rs) loc =
     (if pat = ''*'' \<or> mtch pat loc then Some (pat, el) else matchRoutes mtch rs loc)"

definition render :: "(string \<Rightarrow> string \<Rightarrow> bool) \<Rightarrow> bool \<Rightarrow> string \<Rightarrow> (string \<times> element) option" where
  "render mtch isLoggedIn loc = matchRoutes mtch (routes isLoggedIn) loc"

definition static_paths :: "string list" where
  "static_paths = [''/'', ''/status'', ''/topics'', ''/apps'', ''/help'',
     ''/admin/login'', ''/admin/dashboard'']"

text \<open>
  The state of \<open>App\<close> with the browser's storage, and the handlers that write them:
  the mount effect, \<open>handleLogin\<close> (its argument is \<open>JSON.stringify(user)\<close>) and
  \<open>handleLogout\<close>. The string read from storage is truthy when it is not empty.
\<close>

record app =
  isLoggedIn :: bool
  sidebarOpen :: bool
  storage :: "string \<rightharpoonup> string"

definition app_init :: "(string \<rightharpoonup> string) \<Rightarrow> app" where
  "app_init st = \<lparr>isLoggedIn = False, sidebarOpen = True, storage = st\<rparr>"

datatype app_event = Mount | HandleLogin string | HandleLogout | ToggleSidebar

fun app_step :: "app \<Rightarrow> app_event \<Rightarrow> app" where
  "app_step a Mount =
     (case storage a ''user'' of
        None \<Rightarrow> a
      | Some user \<Rightarrow> if user \<noteq> [] then a\<lparr>isLoggedIn := True\<rparr> else a)"
| "app_step a (HandleLogin user) =
     a\<lparr>storage := (storage a)(''user'' \<mapsto> user), isLoggedIn := True\<rparr>"
| "app_step a HandleLogout =
     a\<lparr>storage := (storage a)(''user'' := None), isLoggedIn := False\<rparr>"
| "app_step a ToggleSidebar = a\<lparr>sidebarOpen := \<not> sidebarOpen a\<rparr>"

definition app_run :: "(string \<rightharpoonup> string) \<Rightarrow> app_event list \<Rightarrow> app" where
  "app_run st evs = foldl app_step (app_init st) evs"

section \<open>The Stream Processor (from the specification)\<close>

text \<open>
  The Stream Processor (engine, adapters and metrics registry) is the backend of the
  repository (\<open>backend/src/utils/stream_processor.py\<close> and the connectors). It is not
  among the source files; only its callers (the API client) and its documentation are.
  The definitions of this section follow the specification.
\<close>

text \<open>Modelled from the spec: the Message of section 3 (the missing backend's data model);
  a message is named by its \<open>ack_token\<close>, which is fresh for every delivery.\<close>

record message =
  msg_id :: nat
  msg_body :: "8 word list"
  ack_token :: nat
  receive_count :: nat
  enqueued_at :: nat
  received_at :: nat

text \<open>Modelled from the spec: the counters of the Metrics Registry (section 3 and 4.4):
  the three counters of the snapshot, the count of unprocessable events of step 3 and
  the count of acknowledgment failures of step 5.\<close>

datatype counter = MessagesProcessed | ProcessingErrors | SinkErrors | Unprocessable | AckFailures

text \<open>Modelled from the spec: a timestamped sample of the registry's rolling history (the backend's Metrics Registry).\<close>

record sample =
  sampled_at :: nat
  sampled :: "counter \<Rightarrow> nat"

text \<open>Modelled from the spec: the backend's Metrics Registry: counters and rolling history.\<close>

record registry =
  counters :: "counter \<Rightarrow> nat"
  recent_history :: "sample list"

text \<open>Modelled from the spec: \<open>increment(counter)\<close> of the Metrics Registry (4.4).\<close>

definition increment :: "counter \<Rightarrow> registry \<Rightarrow> registry" where
  "increment c r = r\<lparr>counters := (counters r)(c := Suc (counters r c))\<rparr>"

text \<open>Modelled from the spec: \<open>increment\<close> applied \<open>n\<close> times.\<close>

fun increment_times :: "counter \<Rightarrow> nat \<Rightarrow> registry \<Rightarrow> registry" where
  "increment_times c 0 r = r"
| "increment_times c (Suc n) r = increment_times c n (increment c r)"

text \<open>Modelled from the spec: \<open>sample()\<close> of the Metrics Registry: a timestamped sample
  is appended to the rolling history of fixed capacity, the oldest evicted first.\<close>

definition take_sample :: "nat \<Rightarrow> nat \<Rightarrow> registry \<Rightarrow> registry" where
  "take_sample capacity now r =
     (let s = \<lparr>sampled_at = now, sampled = counters r\<rparr>;
          h = recent_history r @ [s]
      in r\<lparr>recent_history := drop (length h - capacity) h\<rparr>)"

text \<open>Modelled from the spec: \<open>snapshot()\<close> of the Metrics Registry, a read-only copy.\<close>

definition snapshot :: "registry \<Rightarrow> (counter \<Rightarrow> nat) \<times> sample list" where
  "snapshot r = (counters r, recent_history r)"

text \<open>Modelled from the spec: the control-plane \<open>flush\<close>, which resets the counters.\<close>

definition flush :: "registry \<Rightarrow> registry" where
  "flush r = r\<lparr>counters := (\<lambda>_. 0)\<rparr>"

text \<open>Modelled from the spec: the configuration of the Engine (section 6) that the
  iteration reads, and the poison threshold of step 3.\<close>

record config =
  batch_size :: nat
  publish_retry_limit :: nat
  poison_threshold :: nat
  history_capacity :: nat

text \<open>Modelled from the spec: the external collaborators of one run: the validation
  hook, the sink's answer to each publish attempt of a message (attempts are numbered
  from 0) and the source's answer to the acknowledgment of a message.\<close>

record env =
  validate :: "message \<Rightarrow> bool"
  publish_ok :: "message \<Rightarrow> nat \<Rightarrow> bool"
  ack_ok :: "message \<Rightarrow> bool"

text \<open>Modelled from the spec: what the Engine does at the adapters, by ack token:
  a publish attempt that the sink confirmed or failed, an acknowledgment that the source
  accepted (the message is deleted) or refused with \<open>AckError\<close>, and the drop of a
  poison message.\<close>

datatype event = PublishConfirmed nat | PublishFailed nat | Acknowledged nat | AckFailed nat
  | Dropped nat

text \<open>Modelled from the spec: step 4, the publish of one message: a failed attempt is
  retried up to \<open>publish_retry_limit\<close> times. The arguments are the sink's answers, the
  token, the retries left and the number of the attempt.\<close>

fun publish_events :: "(nat \<Rightarrow> bool) \<Rightarrow> nat \<Rightarrow> nat \<Rightarrow> nat \<Rightarrow> event list" where
  "publish_events ok tok 0 k = (if ok k then [PublishConfirmed tok] else [PublishFailed tok])"
| "publish_events ok tok (Suc n) k =
     (if ok k then [PublishConfirmed tok]
      else PublishFailed tok # publish_events ok tok n (Suc k))"

text \<open>Modelled from the spec: the sink confirms a message within the retry budget.\<close>

definition sink_confirms :: "env \<Rightarrow> config \<Rightarrow> message \<Rightarrow> bool" where
  "sink_confirms e cfg m \<longleftrightarrow> list_ex (publish_ok e m) [0 ..< Suc (publish_retry_limit cfg)]"

text \<open>Modelled from the spec: a message that fails validation and whose
  \<open>receive_count\<close> exceeds the poison threshold.\<close>

definition poison :: "env \<Rightarrow> config \<Rightarrow> message \<Rightarrow> bool" where
  "poison e cfg m \<longleftrightarrow> \<not> validate e m \<and> poison_threshold cfg < receive_count m"

text \<open>Modelled from the spec: the events of steps 3, 4 and 5 of one iteration, for the
  messages of a batch in retrieval order.\<close>

definition step3_events :: "env \<Rightarrow> config \<Rightarrow> message list \<Rightarrow> event list" where
  "step3_events e cfg batch = map (\<lambda>m. Dropped (ack_token m)) (filter (poison e cfg) batch)"

text \<open>Modelled from the spec: step 4 of the backend Engine's iteration: the validated messages are published in retrieval order.\<close>

definition step4_events :: "env \<Rightarrow> config \<Rightarrow> message list \<Rightarrow> event list" where
  "step4_events e cfg batch =
     concat (map (\<lambda>m. publish_events (publish_ok e m) (ack_token m) (publish_retry_limit cfg) 0)
       (filter (validate e) batch))"

text \<open>Modelled from the spec: the messages of a batch that pass validation and that the sink confirms (the backend Engine's step 4).\<close>

definition published :: "env \<Rightarrow> config \<Rightarrow> message list \<Rightarrow> message list" where
  "published e cfg batch = filter (sink_confirms e cfg) (filter (validate e) batch)"

text \<open>Modelled from the spec: step 5 of the backend Engine's iteration: every message successfully published is acknowledged at the source, which accepts or refuses.\<close>

definition step5_events :: "env \<Rightarrow> config \<Rightarrow> message list \<Rightarrow> event list" where
  "step5_events e cfg batch =
     map (\<lambda>m. if ack_ok e m then Acknowledged (ack_token m) else AckFailed (ack_token m))
       (published e cfg batch)"

text \<open>Modelled from the spec: the events of one iteration of the backend Engine, steps 3, 4 and 5 in this order.\<close>

definition iteration_events :: "env \<Rightarrow> config \<Rightarrow> message list \<Rightarrow> event list" where
  "iteration_events e cfg batch =
     step3_events e cfg batch @ step4_events e cfg batch @ step5_events e cfg batch"

text \<open>Modelled from the spec: step 6 and the counting of steps 3 to 5: a message counts
  as processed when the sink confirmed it, every failed publish attempt counts as a
  sink error, every validation failure as a processing error, every dropped poison
  message as unprocessable, every refused acknowledgment as an acknowledgment failure.\<close>

definition iteration_registry :: "env \<Rightarrow> config \<Rightarrow> message list \<Rightarrow> registry \<Rightarrow> registry" where
  "iteration_registry e cfg batch r =
     increment_times MessagesProcessed (length (published e cfg batch))
       (increment_times AckFailures
          (length (filter (\<lambda>m. \<not> ack_ok e m) (published e cfg batch)))
       (increment_times SinkErrors
          (length (filter (\<lambda>ev. case ev of PublishFailed _ \<Rightarrow> True | _ \<Rightarrow> False)
             (step4_events e cfg batch)))
       (increment_times Unprocessable (length (filter (poison e cfg) batch))
       (increment_times ProcessingErrors (length (filter (\<lambda>m. \<not> validate e m) batch)) r))))"

text \<open>Modelled from the spec: one iteration of the poll loop on a polled batch (steps 3
  to 6), returning the registry and the events at the adapters.\<close>

definition iteration :: "env \<Rightarrow> config \<Rightarrow> message list \<Rightarrow> registry \<Rightarrow> registry \<times> event list" where
  "iteration e cfg batch r = (iteration_registry e cfg batch r, iteration_events e cfg batch)"

text \<open>Modelled from the spec: the poll loop over the successive batches that the source
  returns, with the events so far.\<close>

fun poll_loop :: "env \<Rightarrow> config \<Rightarrow> message list list \<Rightarrow> registry \<times> event list
    \<Rightarrow> registry \<times> event list" where
  "poll_loop e cfg [] st = st"
| "poll_loop e cfg (batch # batches) (r, tr) =
     poll_loop e cfg batches
       (fst (iteration e cfg batch r), tr @ snd (iteration e cfg batch r))"

text \<open>Modelled from the spec: no acknowledgment (accepted or refused) of a token
  before the sink confirmed that token; \<open>seen\<close> are the tokens confirmed so far.\<close>

fun acks_follow_confirms :: "nat set \<Rightarrow> event list \<Rightarrow> bool" where
  "acks_follow_confirms seen [] = True"
| "acks_follow_confirms seen (PublishConfirmed t # tr) = acks_follow_confirms (insert t seen) tr"
| "acks_follow_confirms seen (Acknowledged t # tr) = (t \<in> seen \<and> acks_follow_confirms seen tr)"
| "acks_follow_confirms seen (AckFailed t # tr) = (t \<in> seen \<and> acks_follow_confirms seen tr)"
| "acks_follow_confirms seen (PublishFailed t # tr) = acks_follow_confirms seen tr"
| "acks_follow_confirms seen (Dropped t # tr) = acks_follow_confirms seen tr"

text \<open>Modelled from the spec: the number of acknowledge calls made for a token.\<close>

definition ack_calls :: "nat \<Rightarrow> event list \<Rightarrow> nat" where
  "ack_calls t tr = count_list tr (Acknowledged t) + count_list tr (AckFailed t)"

text \<open>Modelled from the spec: the lifecycle of the Engine (4.3) and the ProcessorState
  (section 3 and 7); \<open>poll_loops\<close> counts the poll loops that are alive.\<close>

datatype lifecycle = STOPPED | STARTING | RUNNING | STOPPING

text \<open>Modelled from the spec: the error taxonomy of section 7 (the backend Engine's errors).\<close>

datatype engine_error = ConnectionError | AuthError | MessageFormatError | PublishError
  | AckError | ConfigError

text \<open>Modelled from the spec: the ProcessorState of the backend Engine (section 3), with \<open>last_error\<close> of section 7 and the number of live poll loops.\<close>

record processor_state =
  lifecycle :: lifecycle
  started_at :: "nat option"
  last_error :: "engine_error option"
  metrics_registry :: registry
  poll_loops :: nat

text \<open>Modelled from the spec: what the backend Engine's \<open>start()\<close> reports to its caller.\<close>

datatype start_result = Started | AlreadyRunning | StartFailed engine_error | Unspecified

text \<open>Modelled from the spec: \<open>start()\<close>. From \<open>STOPPED\<close> the Engine passes through
  \<open>STARTING\<close>; an unrecoverable error there (the argument \<open>failure\<close>) returns it to
  \<open>STOPPED\<close> with the error recorded, otherwise it is \<open>RUNNING\<close> with its poll loop.
  While \<open>RUNNING\<close> the call is a no-op reported as a conflict. The specification does
  not say what the call does in \<open>STARTING\<close> or \<open>STOPPING\<close>.\<close>

definition start :: "engine_error option \<Rightarrow> nat \<Rightarrow> processor_state \<Rightarrow> start_result \<times> processor_state" where
  "start failure now s =
     (case lifecycle s of
        RUNNING \<Rightarrow> (AlreadyRunning, s)
      | STOPPED \<Rightarrow>
          (case failure of
             Some err \<Rightarrow> (StartFailed err, s\<lparr>lifecycle := STOPPED, last_error := Some err\<rparr>)
           | None \<Rightarrow> (Started, s\<lparr>lifecycle := RUNNING, started_at := Some now,
                                  poll_loops := Suc (poll_loops s)\<rparr>))
      | _ \<Rightarrow> (Unspecified, s))"

text \<open>Modelled from the spec: \<open>stop()\<close> while \<open>RUNNING\<close> moves to \<open>STOPPING\<close>.\<close>

definition stop :: "processor_state \<Rightarrow> processor_state" where
  "stop s = (if lifecycle s = RUNNING then s\<lparr>lifecycle := STOPPING\<rparr> else s)"

text \<open>Modelled from the spec: one turn of the poll loop: the cancellation is observed
  at the top of the iteration, where a stopping Engine leaves the loop and is
  \<open>STOPPED\<close>; a running Engine processes the batch it polls.\<close>

definition loop_iteration :: "env \<Rightarrow> config \<Rightarrow> message list \<Rightarrow> processor_state \<Rightarrow> processor_state" where
  "loop_iteration e cfg batch s =
     (case lifecycle s of
        RUNNING \<Rightarrow> s\<lparr>metrics_registry := iteration_registry e cfg batch (metrics_registry s)\<rparr>
      | STOPPING \<Rightarrow> s\<lparr>lifecycle := STOPPED, poll_loops := poll_loops s - 1\<rparr>
      | _ \<Rightarrow> s)"

text \<open>Modelled from the spec: the operations of the data path on the registry (the
  Engine's iteration and the registry's own \<open>increment\<close>, \<open>sample\<close>, \<open>snapshot\<close>).\<close>

datatype data_op = Increment counter | Sample nat | Snapshot | Iteration "message list"

text \<open>Modelled from the spec: the effect of a data-path operation on the backend's Metrics Registry.\<close>

fun data_path :: "env \<Rightarrow> config \<Rightarrow> data_op \<Rightarrow> registry \<Rightarrow> registry" where
  "data_path e cfg (Increment c) r = increment c r"
| "data_path e cfg (Sample now) r = take_sample (history_capacity cfg) now r"
| "data_path e cfg Snapshot r = r"
| "data_path e cfg (Iteration batch) r = fst (iteration e cfg batch r)"

text \<open>Modelled from the spec: an acknowledge call (accepted or refused) among the
  events, and the tokens that the sink has confirmed in a sequence of events.\<close>

fun is_ack :: "event \<Rightarrow> bool" where
  "is_ack (Acknowledged t) = True"
| "is_ack (AckFailed t) = True"
| "is_ack _ = False"

text \<open>Modelled from the spec: the tokens that the sink has confirmed in a sequence of the backend Engine's events.\<close>

definition confirmed_tokens :: "event list \<Rightarrow> nat set" where
  "confirmed_tokens tr = {t. PublishConfirmed t \<in> set tr}"

text \<open>Modelled from the spec: a delivery for the scenarios of section 8, with a given
  ack token and receive count, an empty body and the clock at 0.\<close>

definition delivery :: "nat \<Rightarrow> nat \<Rightarrow> message" where
  "delivery tok rc =
     \<lparr>msg_id = tok, msg_body = [], ack_token = tok, receive_count = rc,
      enqueued_at = 0, received_at = 0\<rparr>"

text \<open>Modelled from the spec: the timeouts of the backend Engine's external calls
  (section 5): a poll blocks up to \<open>poll_timeout\<close>, a publish attempt up to
  \<open>publish_timeout\<close>, in units of time.\<close>

record timing =
  poll_timeout :: nat
  publish_timeout :: nat

text \<open>Modelled from the spec: the number of publish attempts of one iteration of the
  backend Engine; every event of step 4 is one attempt.\<close>

definition publish_attempts :: "env \<Rightarrow> config \<Rightarrow> message list \<Rightarrow> nat" where
  "publish_attempts e cfg batch = length (step4_events e cfg batch)"

text \<open>Modelled from the spec: the longest time that the poll and the publish attempts
  of one iteration of the backend Engine can block, each call up to its timeout.\<close>

definition iteration_time :: "timing \<Rightarrow> env \<Rightarrow> config \<Rightarrow> message list \<Rightarrow> nat" where
  "iteration_time tm e cfg batch =
     poll_timeout tm + publish_timeout tm * publish_attempts e cfg batch"

text \<open>Modelled from the spec: the bound of section 8 for the backend Engine's stop,
  \<open>poll_timeout + publish_timeout \<times> publish_retry_limit\<close>.\<close>

definition claimed_stop_bound :: "timing \<Rightarrow> config \<Rightarrow> nat" where
  "claimed_stop_bound tm cfg = poll_timeout tm + publish_timeout tm * publish_retry_limit cfg"

text \<open>Modelled from the spec: \<open>stop()\<close> called on the backend Engine while an iteration
  is in flight: the iteration on the batch \<open>inflight\<close> completes, the lifecycle is
  \<open>STOPPING\<close>, and the next turn of the loop, which would poll \<open>next\<close>, observes the
  cancellation at its top.\<close>

definition stop_in_flight :: "env \<Rightarrow> config \<Rightarrow> message list \<Rightarrow> message list
    \<Rightarrow> processor_state \<Rightarrow> processor_state" where
  "stop_in_flight e cfg inflight next s =
     loop_iteration e cfg next (stop (loop_iteration e cfg inflight s))"

section \<open>Topic form: what is rejected\<close>

lemma spec_naming_grammar_regex: "spec_naming_grammar s \<Longrightarrow> regex_test s"
  by (cases s) (simp_all add: spec_naming_grammar_def regex_test_def)

text \<open>
  C1, as stated, fails on the form: the names \<open>..\<close>, \<open>.\<close>, \<open>_t\<close> and a name of 250
  letters, with 3 partitions and replication 3, violate the naming grammar and are
  accepted by \<open>validateForm\<close>.
\<close>

theorem validateForm_accepts_ungrammatical:
  "fst (validateForm \<lparr>name = utf16 ''..'', partitions = Num 3, replication = Num 3\<rparr>)
   \<and> spec_invalid_parameters \<lparr>name = utf16 ''..'', partitions = Num 3, replication = Num 3\<rparr>
   \<and> fst (validateForm \<lparr>name = utf16 ''.'', partitions = Num 3, replication = Num 3\<rparr>)
   \<and> spec_invalid_parameters \<lparr>name = utf16 ''.'', partitions = Num 3, replication = Num 3\<rparr>
   \<and> fst (validateForm \<lparr>name = utf16 ''_t'', partitions = Num 3, replication = Num 3\<rparr>)
   \<and> spec_invalid_parameters \<lparr>name = utf16 ''_t'', partitions = Num 3, replication = Num 3\<rparr>
   \<and> fst (validateForm \<lparr>name = replicate 250 0x61, partitions = Num 3, replication = Num 3\<rparr>)
   \<and> spec_invalid_parameters
        \<lparr>name = replicate 250 0x61, partitions = Num 3, replication = Num 3\<rparr>"
  by (simp add: validateForm_def spec_invalid_parameters_def spec_naming_grammar_def
      regex_test_def name_char_def utf16_def list_all_iff)

text \<open>
  C1, amended: the form rejects a request exactly when the name is empty, or has a
  character outside the alphanumerics and \<open>.\<close>, \<open>_\<close>, \<open>-\<close>, or partitions < 1, or
  replication < 1 (as JavaScript compares numbers); every request it rejects is invalid
  by the specification's rule. The bound of 249 characters, the names \<open>.\<close> and \<open>..\<close>
  and the first character are not checked by the form.
\<close>

theorem validateForm_rejects_iff:
  "(\<not> fst (validateForm t) \<longleftrightarrow>
      name t = [] \<or> \<not> list_all name_char (name t)
      \<or> js_lt (partitions t) (Num 1) \<or> js_lt (replication t) (Num 1))
   \<and> (\<not> fst (validateForm t) \<longrightarrow> spec_invalid_parameters t)
   \<and> (handleCreateTopic t = None \<longleftrightarrow> \<not> fst (validateForm t))"
proof -
  have a: "\<not> fst (validateForm t) \<longleftrightarrow>
      name t = [] \<or> \<not> list_all name_char (name t)
      \<or> js_lt (partitions t) (Num 1) \<or> js_lt (replication t) (Num 1)"
    by (simp add: validateForm_def regex_test_def)
  have b: "spec_invalid_parameters t" if "\<not> fst (validateForm t)"
  proof (cases "regex_test (name t)")
    case True
    with that a show ?thesis
      by (auto simp: spec_invalid_parameters_def regex_test_def)
  next
    case False
    then have "\<not> spec_naming_grammar (name t)"
      using spec_naming_grammar_regex by blast
    then show ?thesis by (simp add: spec_invalid_parameters_def)
  qed
  have c: "handleCreateTopic t = None \<longleftrightarrow> \<not> fst (validateForm t)"
    by (simp add: handleCreateTopic_def)
  from a b c show ?thesis by blast
qed

theorem validateForm_rejects_iff_witness:
  "\<not> fst (validateForm \<lparr>name = utf16 ''a b'', partitions = Num 3, replication = Num 3\<rparr>)
   \<and> spec_invalid_parameters \<lparr>name = utf16 ''a b'', partitions = Num 3, replication = Num 3\<rparr>"
proof -
  let ?t = "\<lparr>name = utf16 ''a b'', partitions = Num 3, replication = Num 3\<rparr>"
  have "\<not> fst (validateForm ?t)"
    by (simp add: validateForm_def regex_test_def name_char_def utf16_def)
  with validateForm_rejects_iff [of ?t] show ?thesis by blast
qed

text \<open>
  C8: from the freshly opened dialog, typing the name \<open>orders\<close> and emptying the
  partitions field leaves a grammatical name with partitions NaN; \<open>validateForm\<close>
  returns true without an error message and \<open>handleCreateTopic\<close> posts the request.
  The same holds for a NaN replication factor.
\<close>

theorem validateForm_accepts_NaN:
  "partitions (handleInputChange (handleInputChange handleOpenDialog FName (utf16 ''orders''))
       FPartitions []) = NaN
   \<and> spec_naming_grammar (name (handleInputChange
       (handleInputChange handleOpenDialog FName (utf16 ''orders'')) FPartitions []))
   \<and> validateForm (handleInputChange (handleInputChange handleOpenDialog FName (utf16 ''orders''))
       FPartitions []) = (True, None)
   \<and> handleCreateTopic (handleInputChange
       (handleInputChange handleOpenDialog FName (utf16 ''orders'')) FPartitions [])
     = Some \<lparr>name = utf16 ''orders'', partitions = NaN, replication = Num 3\<rparr>
   \<and> handleCreateTopic (handleInputChange
       (handleInputChange handleOpenDialog FName (utf16 ''orders'')) FReplication (utf16 ''abc''))
     = Some \<lparr>name = utf16 ''orders'', partitions = Num 3, replication = NaN\<rparr>"
  by (simp add: handleOpenDialog_def parseInt_def validateForm_def handleCreateTopic_def
      regex_test_def spec_naming_grammar_def name_char_def is_digit_def
      StrWhiteSpaceChar_def utf16_def)

section \<open>Chart history: a window of ten samples\<close>

lemma length_slice_last: "length (slice_last k xs) = min k (length xs)"
  by (simp add: slice_last_def)

lemma slice_last_snoc: "slice_last k (slice_last k xs @ [x]) = slice_last k (xs @ [x])"
proof (cases "length xs \<le> k")
  case True
  then show ?thesis by (simp add: slice_last_def)
next
  case False
  then have "Suc (length xs) - k = Suc (length xs - k)" by simp
  with False show ?thesis by (simp add: slice_last_def)
qed

lemma slice_last_full:
  "length xs = k \<Longrightarrow> 0 < k \<Longrightarrow> slice_last k (xs @ [x]) = tl xs @ [x]"
  by (cases xs) (simp_all add: slice_last_def)

lemma chart_after_snoc:
  "chart_after (ss @ [(now, m)]) = updateChartData now m (chart_after ss)"
  by (simp add: chart_after_def)

lemma chart_after_labels: "labels (chart_after ss) = slice_last 10 (map fst ss)"
proof (induction ss rule: rev_induct)
  case Nil
  show ?case by (simp add: chart_after_def initialChartData_def slice_last_def)
next
  case (snoc s ss)
  obtain now m where s: "s = (now, m)" by (cases s)
  show ?case
    by (simp add: s chart_after_snoc updateChartData_def Let_def snoc.IH slice_last_snoc)
qed

lemma chart_after_data0:
  "data (datasets0 (chart_after ss)) = slice_last 10 (map (messages_processed \<circ> snd) ss)"
proof (induction ss rule: rev_induct)
  case Nil
  show ?case by (simp add: chart_after_def initialChartData_def slice_last_def)
next
  case (snoc s ss)
  obtain now m where s: "s = (now, m)" by (cases s)
  show ?case
    by (simp add: s chart_after_snoc updateChartData_def Let_def snoc.IH slice_last_snoc)
qed

lemma chart_after_data1:
  "data (datasets1 (chart_after ss)) = slice_last 10 (map (processing_errors \<circ> snd) ss)"
proof (induction ss rule: rev_induct)
  case Nil
  show ?case by (simp add: chart_after_def initialChartData_def slice_last_def)
next
  case (snoc s ss)
  obtain now m where s: "s = (now, m)" by (cases s)
  show ?case
    by (simp add: s chart_after_snoc updateChartData_def Let_def snoc.IH slice_last_snoc)
qed

text \<open>
  C5: the chart history is a window of capacity 10. After every sequence of polls each
  of the three series holds the last 10 samples of the sequence, in order, so at most 10;
  and a poll that finds the window full drops exactly the oldest sample of each series
  and appends the new one.
\<close>

theorem updateChartData_ring_buffer:
  "length (labels (chart_after ss)) \<le> 10
   \<and> length (data (datasets0 (chart_after ss))) = length (labels (chart_after ss))
   \<and> length (data (datasets1 (chart_after ss))) = length (labels (chart_after ss))
   \<and> labels (chart_after ss) = drop (length ss - 10) (map fst ss)
   \<and> data (datasets0 (chart_after ss)) = drop (length ss - 10) (map (messages_processed \<circ> snd) ss)
   \<and> data (datasets1 (chart_after ss)) = drop (length ss - 10) (map (processing_errors \<circ> snd) ss)
   \<and> (length (labels (chart_after ss)) = 10 \<longrightarrow>
        labels (updateChartData now m (chart_after ss)) = tl (labels (chart_after ss)) @ [now]
        \<and> data (datasets0 (updateChartData now m (chart_after ss)))
            = tl (data (datasets0 (chart_after ss))) @ [messages_processed m]
        \<and> data (datasets1 (updateChartData now m (chart_after ss)))
            = tl (data (datasets1 (chart_after ss))) @ [processing_errors m])"
proof -
  let ?c = "chart_after ss"
  have l: "labels ?c = drop (length ss - 10) (map fst ss)"
    by (simp add: chart_after_labels slice_last_def)
  have d0: "data (datasets0 ?c) = drop (length ss - 10) (map (messages_processed \<circ> snd) ss)"
    by (simp add: chart_after_data0 slice_last_def)
  have d1: "data (datasets1 ?c) = drop (length ss - 10) (map (processing_errors \<circ> snd) ss)"
    by (simp add: chart_after_data1 slice_last_def)
  have n: "length (labels ?c) \<le> 10" by (simp add: l)
  have n0: "length (data (datasets0 ?c)) = length (labels ?c)" by (simp add: l d0)
  have n1: "length (data (datasets1 ?c)) = length (labels ?c)" by (simp add: l d1)
  have full: "labels (updateChartData now m ?c) = tl (labels ?c) @ [now]
     \<and> data (datasets0 (updateChartData now m ?c)) = tl (data (datasets0 ?c)) @ [messages_processed m]
     \<and> data (datasets1 (updateChartData now m ?c)) = tl (data (datasets1 ?c)) @ [processing_errors m]"
    if "length (labels ?c) = 10"
    using that n0 n1 by (simp add: updateChartData_def Let_def slice_last_full)
  from l d0 d1 n n0 n1 full show ?thesis by blast
qed


theorem updateChartData_ring_buffer_witness:
  "length (labels (chart_after
       [(''a'', \<lparr>messages_processed = 1, processing_errors = 0\<rparr>),
        (''b'', \<lparr>messages_processed = 1, processing_errors = 0\<rparr>),
        (''c'', \<lparr>messages_processed = 1, processing_errors = 0\<rparr>),
        (''d'', \<lparr>messages_processed = 1, processing_errors = 0\<rparr>),
        (''e'', \<lparr>messages_processed = 1, processing_errors = 0\<rparr>),
        (''f'', \<lparr>messages_processed = 1, processing_errors = 0\<rparr>),
        (''g'', \<lparr>messages_processed = 1, processing_errors = 0\<rparr>),
        (''h'', \<lparr>messages_processed = 1, processing_errors = 0\<rparr>),
        (''i'', \<lparr>messages_processed = 1, processing_errors = 0\<rparr>),
        (''j'', \<lparr>messages_processed = 1, processing_errors = 0\<rparr>),
        (''k'', \<lparr>messages_processed = 1, processing_errors = 0\<rparr>)])) = 10
   \<and> labels (updateChartData ''l'' \<lparr>messages_processed = 7, processing_errors = 2\<rparr>
       (chart_after
       [(''a'', \<lparr>messages_processed = 1, processing_errors = 0\<rparr>),
        (''b'', \<lparr>messages_processed = 1, processing_errors = 0\<rparr>),
        (''c'', \<lparr>messages_processed = 1, processing_errors = 0\<rparr>),
        (''d'', \<lparr>messages_processed = 1, processing_errors = 0\<rparr>),
        (''e'', \<lparr>messages_processed = 1, processing_errors = 0\<rparr>),
        (''f'', \<lparr>messages_processed = 1, processing_errors = 0\<rparr>),
        (''g'', \<lparr>messages_processed = 1, processing_errors = 0\<rparr>),
        (''h'', \<lparr>messages_processed = 1, processing_errors = 0\<rparr>),
        (''i'', \<lparr>messages_processed = 1, processing_errors = 0\<rparr>),
        (''j'', \<lparr>messages_processed = 1, processing_errors = 0\<rparr>),
        (''k'', \<lparr>messages_processed = 1, processing_errors = 0\<rparr>)]))
     = [''c'', ''d'', ''e'', ''f'', ''g'', ''h'', ''i'', ''j'', ''k'', ''l'']
   \<and> data (datasets0 (updateChartData ''l'' \<lparr>messages_processed = 7, processing_errors = 2\<rparr>
       (chart_after
       [(''a'', \<lparr>messages_processed = 1, processing_errors = 0\<rparr>),
        (''b'', \<lparr>messages_processed = 1, processing_errors = 0\<rparr>),
        (''c'', \<lparr>messages_processed = 1, processing_errors = 0\<rparr>),
        (''d'', \<lparr>messages_processed = 1, processing_errors = 0\<rparr>),
        (''e'', \<lparr>messages_processed = 1, processing_errors = 0\<rparr>),
        (''f'', \<lparr>messages_processed = 1, processing_errors = 0\<rparr>),
        (''g'', \<lparr>messages_processed = 1, processing_errors = 0\<rparr>),
        (''h'', \<lparr>messages_processed = 1, processing_errors = 0\<rparr>),
        (''i'', \<lparr>messages_processed = 1, processing_errors = 0\<rparr>),
        (''j'', \<lparr>messages_processed = 1, processing_errors = 0\<rparr>),
        (''k'', \<lparr>messages_processed = 1, processing_errors = 0\<rparr>)])))
     = [1, 1, 1, 1, 1, 1, 1, 1, 1, 7]"
proof -
  let ?ss = "[(''a'', \<lparr>messages_processed = 1, processing_errors = 0\<rparr>),
        (''b'', \<lparr>messages_processed = 1, processing_errors = 0\<rparr>),
        (''c'', \<lparr>messages_processed = 1, processing_errors = 0\<rparr>),
        (''d'', \<lparr>messages_processed = 1, processing_errors = 0\<rparr>),
        (''e'', \<lparr>messages_processed = 1, processing_errors = 0\<rparr>),
        (''f'', \<lparr>messages_processed = 1, processing_errors = 0\<rparr>),
        (''g'', \<lparr>messages_processed = 1, processing_errors = 0\<rparr>),
        (''h'', \<lparr>messages_processed = 1, processing_errors = 0\<rparr>),
        (''i'', \<lparr>messages_processed = 1, processing_errors = 0\<rparr>),
        (''j'', \<lparr>messages_processed = 1, processing_errors = 0\<rparr>),
        (''k'', \<lparr>messages_processed = 1, processing_errors = 0\<rparr>)]"
  let ?m = "\<lparr>messages_processed = 7, processing_errors = 2\<rparr>"
  note t = updateChartData_ring_buffer [of ?ss "''l''" ?m]
  have l: "labels (chart_after ?ss)
      = [''b'', ''c'', ''d'', ''e'', ''f'', ''g'', ''h'', ''i'', ''j'', ''k'']"
    using t by simp
  have d: "data (datasets0 (chart_after ?ss)) = [1, 1, 1, 1, 1, 1, 1, 1, 1, 1]"
    using t by simp
  have n: "length (labels (chart_after ?ss)) = 10"
    by (simp only: l) simp
  from t n have u: "labels (updateChartData ''l'' ?m (chart_after ?ss))
        = tl (labels (chart_after ?ss)) @ [''l'']
      \<and> data (datasets0 (updateChartData ''l'' ?m (chart_after ?ss)))
        = tl (data (datasets0 (chart_after ?ss))) @ [messages_processed ?m]"
    by simp
  show ?thesis
    by (simp only: n u l d) simp
qed

section \<open>Response interceptor: status 401\<close>

text \<open>
  C9: for an error whose response has status 401 the handler removes the \<open>user\<close> entry
  of localStorage (and no other entry) and sets the location to \<open>/admin/login\<close>; for an
  error with any other status, or with no response, it leaves localStorage and the
  location as they are; in every case it rejects with the same error. A response that
  is not an error passes through unchanged.
\<close>

theorem response_interceptor_401:
  "(response e = Some r \<and> status r = 401 \<longrightarrow>
      localStorage (fst (response_rejected e b)) ''user'' = None
      \<and> (\<forall>k. k \<noteq> ''user'' \<longrightarrow> localStorage (fst (response_rejected e b)) k = localStorage b k)
      \<and> location_href (fst (response_rejected e b)) = ''/admin/login'')
   \<and> (response e = Some r \<and> status r \<noteq> 401 \<longrightarrow> fst (response_rejected e b) = b)
   \<and> (response e = None \<longrightarrow> fst (response_rejected e b) = b)
   \<and> snd (response_rejected e b) = Inl e
   \<and> response_fulfilled r b = (b, Inr r)"
  by (simp add: response_rejected_def response_fulfilled_def)


theorem response_interceptor_401_witness:
  "localStorage (fst (response_rejected
      \<lparr>message = ''Request failed with status code 401'',
        response = Some \<lparr>status = 401, body = ''unauthorized''\<rparr>\<rparr>
      \<lparr>localStorage = [''user'' \<mapsto> ''{}'', ''theme'' \<mapsto> ''dark''], location_href = ''/topics''\<rparr>))
      ''user'' = None
   \<and> localStorage (fst (response_rejected
      \<lparr>message = ''Request failed with status code 401'',
        response = Some \<lparr>status = 401, body = ''unauthorized''\<rparr>\<rparr>
      \<lparr>localStorage = [''user'' \<mapsto> ''{}'', ''theme'' \<mapsto> ''dark''], location_href = ''/topics''\<rparr>))
      ''theme'' = Some ''dark''
   \<and> location_href (fst (response_rejected
      \<lparr>message = ''Request failed with status code 500'',
        response = Some \<lparr>status = 500, body = ''oops''\<rparr>\<rparr>
      \<lparr>localStorage = [''user'' \<mapsto> ''{}'', ''theme'' \<mapsto> ''dark''], location_href = ''/topics''\<rparr>))
     = ''/topics''
   \<and> localStorage (fst (response_rejected \<lparr>message = ''Network Error'', response = None\<rparr>
      \<lparr>localStorage = [''user'' \<mapsto> ''{}'', ''theme'' \<mapsto> ''dark''], location_href = ''/topics''\<rparr>))
      ''user'' = Some ''{}''"
proof -
  let ?b = "\<lparr>localStorage = [''user'' \<mapsto> ''{}'', ''theme'' \<mapsto> ''dark''],
             location_href = ''/topics''\<rparr>"
  let ?r1 = "\<lparr>status = 401, body = ''unauthorized''\<rparr>"
  let ?e1 = "\<lparr>message = ''Request failed with status code 401'', response = Some ?r1\<rparr>"
  let ?r2 = "\<lparr>status = 500, body = ''oops''\<rparr>"
  let ?e2 = "\<lparr>message = ''Request failed with status code 500'', response = Some ?r2\<rparr>"
  let ?e3 = "\<lparr>message = ''Network Error'', response = None\<rparr>"
  have a: "localStorage (fst (response_rejected ?e1 ?b)) ''user'' = None"
    using response_interceptor_401 [of ?e1 ?r1 ?b] by simp
  have a': "localStorage (fst (response_rejected ?e1 ?b)) ''theme'' = Some ''dark''"
    using response_interceptor_401 [of ?e1 ?r1 ?b] by simp
  have b: "fst (response_rejected ?e2 ?b) = ?b"
    using response_interceptor_401 [of ?e2 ?r2 ?b] by simp
  have c: "fst (response_rejected ?e3 ?b) = ?b"
    using response_interceptor_401 [of ?e3 ?r2 ?b] by simp
  show ?thesis
    by (simp only: a a' b c) simp
qed

section \<open>Routing: who sees the admin dashboard\<close>

lemma app_step_inv:
  "(isLoggedIn a \<longrightarrow> storage a ''user'' \<noteq> None) \<Longrightarrow>
   isLoggedIn (app_step a ev) \<longrightarrow> storage (app_step a ev) ''user'' \<noteq> None"
  by (cases ev) (auto split: option.splits)

lemma app_run_inv: "isLoggedIn (app_run st evs) \<longrightarrow> storage (app_run st evs) ''user'' \<noteq> None"
proof (induction evs rule: rev_induct)
  case Nil
  show ?case by (simp add: app_run_def app_init_def)
next
  case (snoc ev evs)
  have "app_run st (evs @ [ev]) = app_step (app_run st evs) ev"
    by (simp add: app_run_def)
  with snoc app_step_inv [of "app_run st evs" ev] show ?case by simp
qed

lemma matchRoutes_mem:
  "matchRoutes mtch rs loc = Some r \<Longrightarrow> r \<in> set rs"
  by (induction rs) (auto split: if_splits)

text \<open>
  C10: whatever the router's matching of the static paths is, the admin dashboard is
  rendered only by the route \<open>/admin/dashboard\<close> and only when \<open>isLoggedIn\<close> holds, and
  in every state the App reaches from a page load through its own handlers
  \<open>isLoggedIn\<close> implies that a \<open>user\<close> record is stored. When the route
  \<open>/admin/dashboard\<close> is the match and the user is not logged in the element is a
  redirect to \<open>/admin/login\<close>; when \<open>/admin/login\<close> is the match and the user is logged
  in it is a redirect to \<open>/admin/dashboard\<close>; a location that matches none of the
  static paths is redirected to \<open>/\<close>.
\<close>

theorem routing_access_control:
  "(snd (the (render mtch li loc)) = Page AdminDashboard \<longrightarrow>
      li \<and> fst (the (render mtch li loc)) = ''/admin/dashboard'')
   \<and> (render mtch (isLoggedIn (app_run st evs)) loc = Some (pat, Page AdminDashboard) \<longrightarrow>
      storage (app_run st evs) ''user'' \<noteq> None)
   \<and> (fst (the (render mtch li loc)) = ''/admin/dashboard'' \<and> \<not> li \<longrightarrow>
      render mtch li loc = Some (''/admin/dashboard'', Navigate ''/admin/login''))
   \<and> (fst (the (render mtch li loc)) = ''/admin/login'' \<and> li \<longrightarrow>
      render mtch li loc = Some (''/admin/login'', Navigate ''/admin/dashboard''))
   \<and> ((\<forall>p \<in> set static_paths. \<not> mtch p loc) \<longrightarrow>
      render mtch li loc = Some (''*'', Navigate ''/''))
   \<and> render mtch li loc \<noteq> None"
proof -
  obtain r where r: "render mtch li loc = Some r" and mem: "r \<in> set (routes li)"
  proof -
    have "matchRoutes mtch (routes li) loc \<noteq> None"
      by (simp add: routes_def)
    then obtain r where "matchRoutes mtch (routes li) loc = Some r" by blast
    with matchRoutes_mem [of mtch "routes li" loc r] that show ?thesis
      by (simp add: render_def)
  qed
  have a: "snd r = Page AdminDashboard \<longrightarrow> li \<and> fst r = ''/admin/dashboard''"
    using mem by (auto simp: routes_def split: if_splits)
  have c: "fst r = ''/admin/dashboard'' \<and> \<not> li \<longrightarrow> r = (''/admin/dashboard'', Navigate ''/admin/login'')"
    using mem by (auto simp: routes_def)
  have d: "fst r = ''/admin/login'' \<and> li \<longrightarrow> r = (''/admin/login'', Navigate ''/admin/dashboard'')"
    using mem by (auto simp: routes_def)
  have e: "render mtch li loc = Some (''*'', Navigate ''/'')"
    if "\<forall>p \<in> set static_paths. \<not> mtch p loc"
    using that by (simp add: render_def routes_def static_paths_def)
  have b: "storage (app_run st evs) ''user'' \<noteq> None"
    if "render mtch (isLoggedIn (app_run st evs)) loc = Some (pat, Page AdminDashboard)"
  proof -
    from that have "(pat, Page AdminDashboard) \<in> set (routes (isLoggedIn (app_run st evs)))"
      using matchRoutes_mem by (fastforce simp: render_def)
    then have "isLoggedIn (app_run st evs)"
      by (auto simp: routes_def split: if_splits)
    with app_run_inv show ?thesis by blast
  qed
  from a b c d e r show ?thesis by auto
qed


theorem routing_access_control_witness:
  "render (=) True ''/admin/dashboard'' = Some (''/admin/dashboard'', Page AdminDashboard)
   \<and> storage (app_run [''user'' \<mapsto> ''{}''] [Mount]) ''user'' \<noteq> None
   \<and> render (=) False ''/admin/dashboard'' = Some (''/admin/dashboard'', Navigate ''/admin/login'')
   \<and> render (=) True ''/admin/login'' = Some (''/admin/login'', Navigate ''/admin/dashboard'')
   \<and> render (=) True ''/nowhere'' = Some (''*'', Navigate ''/'')"
proof -
  let ?st = "[''user'' \<mapsto> ''{}'']"
  have r1: "render (=) True ''/admin/dashboard'' = Some (''/admin/dashboard'', Page AdminDashboard)"
    by (simp add: render_def routes_def)
  have li: "isLoggedIn (app_run ?st [Mount]) = True"
    by (simp add: app_run_def app_init_def)
  have h1: "render (=) (isLoggedIn (app_run ?st [Mount])) ''/admin/dashboard''
      = Some (''/admin/dashboard'', Page AdminDashboard)"
    by (simp only: li r1)
  have h2: "fst (the (render (=) False ''/admin/dashboard'')) = ''/admin/dashboard'' \<and> \<not> False"
    by (simp add: render_def routes_def)
  have h3: "fst (the (render (=) True ''/admin/login'')) = ''/admin/login'' \<and> True"
    by (simp add: render_def routes_def)
  have h4: "\<forall>p \<in> set static_paths. \<not> p = ''/nowhere''"
    by (simp add: static_paths_def)
  note t1 = routing_access_control [of "(=)" True "''/admin/dashboard''" ?st "[Mount]"
      "''/admin/dashboard''"]
  note t2 = routing_access_control [of "(=)" False "''/admin/dashboard''" ?st "[Mount]"
      "''/admin/dashboard''"]
  note t3 = routing_access_control [of "(=)" True "''/admin/login''" ?st "[Mount]"
      "''/admin/dashboard''"]
  note t4 = routing_access_control [of "(=)" True "''/nowhere''" ?st "[Mount]"
      "''/admin/dashboard''"]
  have a: "storage (app_run ?st [Mount]) ''user'' \<noteq> None"
    by (rule mp [OF t1 [THEN conjunct2, THEN conjunct1] h1])
  have b: "render (=) False ''/admin/dashboard'' = Some (''/admin/dashboard'', Navigate ''/admin/login'')"
    by (rule mp [OF t2 [THEN conjunct2, THEN conjunct2, THEN conjunct1] h2])
  have c: "render (=) True ''/admin/login'' = Some (''/admin/login'', Navigate ''/admin/dashboard'')"
    by (rule mp [OF t3 [THEN conjunct2, THEN conjunct2, THEN conjunct2, THEN conjunct1] h3])
  have d: "render (=) True ''/nowhere'' = Some (''*'', Navigate ''/'')"
    by (rule mp [OF t4 [THEN conjunct2, THEN conjunct2, THEN conjunct2, THEN conjunct2,
      THEN conjunct1] h4])
  show ?thesis
    by (intro conjI r1 a b c d)
qed

section \<open>Metrics counters\<close>

lemma counters_increment_times:
  "counters (increment_times c n r) c' = counters r c' + (if c' = c then n else 0)"
  by (induction n arbitrary: r) (simp_all add: increment_def)

lemma counters_iteration_registry:
  "counters (iteration_registry e cfg batch r) c =
     counters r c +
     (case c of
        MessagesProcessed \<Rightarrow> length (published e cfg batch)
      | AckFailures \<Rightarrow> length (filter (\<lambda>m. \<not> ack_ok e m) (published e cfg batch))
      | SinkErrors \<Rightarrow>
          length (filter (\<lambda>ev. case ev of PublishFailed _ \<Rightarrow> True | _ \<Rightarrow> False)
            (step4_events e cfg batch))
      | Unprocessable \<Rightarrow> length (filter (poison e cfg) batch)
      | ProcessingErrors \<Rightarrow> length (filter (\<lambda>m. \<not> validate e m) batch))"
  by (cases c) (simp_all add: iteration_registry_def counters_increment_times)

lemma data_path_mono: "counters r c \<le> counters (data_path e cfg op r) c"
  by (cases op)
    (simp_all add: increment_def take_sample_def Let_def iteration_def counters_iteration_registry)

lemma data_path_fold_mono: "counters r c \<le> counters (fold (data_path e cfg) ops r) c"
proof (induction ops arbitrary: r)
  case Nil
  show ?case by simp
next
  case (Cons op ops)
  have "counters r c \<le> counters (data_path e cfg op r) c" by (rule data_path_mono)
  also have "\<dots> \<le> counters (fold (data_path e cfg) ops (data_path e cfg op r)) c"
    by (rule Cons.IH)
  finally show ?case by simp
qed

lemma loop_iteration_mono:
  "counters (metrics_registry s) c \<le> counters (metrics_registry (loop_iteration e cfg batch s)) c"
  by (cases "lifecycle s") (simp_all add: loop_iteration_def counters_iteration_registry)

text \<open>
  C4: every operation of the data path (the registry's \<open>increment\<close>, \<open>sample\<close> and
  \<open>snapshot\<close>, an iteration of the Engine, a turn of its poll loop, and every sequence
  of them) leaves each counter at least as large as it was; \<open>start\<close> and \<open>stop\<close> leave
  the counters as they are; \<open>flush\<close> sets every counter to 0, below its value whenever
  that was positive.
\<close>

theorem counters_monotone:
  "counters r c \<le> counters (data_path e cfg op r) c
   \<and> counters r c \<le> counters (fold (data_path e cfg) ops r) c
   \<and> counters (metrics_registry s) c
       \<le> counters (metrics_registry (loop_iteration e cfg batch s)) c
   \<and> counters (metrics_registry (snd (start failure now s))) c = counters (metrics_registry s) c
   \<and> counters (metrics_registry (stop s)) c = counters (metrics_registry s) c
   \<and> counters (flush r) c = 0
   \<and> counters (flush (increment c r)) c < counters (increment c r) c"
proof -
  have a: "counters (metrics_registry (snd (start failure now s))) c = counters (metrics_registry s) c"
    by (simp add: start_def split: lifecycle.splits option.splits)
  have b: "counters (metrics_registry (stop s)) c = counters (metrics_registry s) c"
    by (simp add: stop_def)
  have f: "counters (flush r) c = 0" by (simp add: flush_def)
  have g: "counters (flush (increment c r)) c < counters (increment c r) c"
    by (simp add: flush_def increment_def)
  from data_path_mono [of r c e cfg op] data_path_fold_mono [of r c e cfg ops]
    loop_iteration_mono [of s c e cfg batch] a b f g
  show ?thesis by simp
qed

section \<open>Lifecycle: start while running\<close>

text \<open>
  C6: \<open>start()\<close> while the Engine is \<open>RUNNING\<close> reports \<open>AlreadyRunning\<close> and returns the
  processor state unchanged (the lifecycle stays \<open>RUNNING\<close>, the number of poll loops
  and every other component are as before). In particular, after a \<open>start()\<close> from
  \<open>STOPPED\<close> that succeeded, with its single new poll loop, a second \<open>start()\<close>
  changes nothing.
\<close>

theorem start_while_running:
  "(lifecycle s = RUNNING \<longrightarrow> start failure now s = (AlreadyRunning, s))
   \<and> (lifecycle s = STOPPED \<longrightarrow>
        fst (start None now s) = Started
        \<and> lifecycle (snd (start None now s)) = RUNNING
        \<and> poll_loops (snd (start None now s)) = Suc (poll_loops s)
        \<and> start failure now' (snd (start None now s)) = (AlreadyRunning, snd (start None now s)))"
  by (simp add: start_def)

theorem start_while_running_witness:
  "start None 7
     \<lparr>lifecycle = RUNNING, started_at = Some 3, last_error = None,
      metrics_registry = \<lparr>counters = (\<lambda>_. 5), recent_history = []\<rparr>, poll_loops = 1\<rparr>
   = (AlreadyRunning,
     \<lparr>lifecycle = RUNNING, started_at = Some 3, last_error = None,
      metrics_registry = \<lparr>counters = (\<lambda>_. 5), recent_history = []\<rparr>, poll_loops = 1\<rparr>)
   \<and> poll_loops (snd (start (Some AuthError) 9 (snd (start None 7
     \<lparr>lifecycle = STOPPED, started_at = None, last_error = None,
      metrics_registry = \<lparr>counters = (\<lambda>_. 0), recent_history = []\<rparr>, poll_loops = 0\<rparr>)))) = 1"
proof -
  let ?s = "\<lparr>lifecycle = RUNNING, started_at = Some 3, last_error = None,
      metrics_registry = \<lparr>counters = (\<lambda>_. 5), recent_history = []\<rparr>, poll_loops = 1\<rparr>"
  let ?z = "\<lparr>lifecycle = STOPPED, started_at = None, last_error = None,
      metrics_registry = \<lparr>counters = (\<lambda>_. 0), recent_history = []\<rparr>, poll_loops = 0\<rparr>"
  have h1: "lifecycle ?s = RUNNING" by simp
  have h2: "lifecycle ?z = STOPPED" by simp
  note t1 = start_while_running [of ?s None 7 7]
  note t2 = start_while_running [of ?z "Some AuthError" 7 9]
  have a: "start None 7 ?s = (AlreadyRunning, ?s)"
    by (rule mp [OF t1 [THEN conjunct1] h1])
  have b: "fst (start None 7 ?z) = Started
        \<and> lifecycle (snd (start None 7 ?z)) = RUNNING
        \<and> poll_loops (snd (start None 7 ?z)) = Suc (poll_loops ?z)
        \<and> start (Some AuthError) 9 (snd (start None 7 ?z)) = (AlreadyRunning, snd (start None 7 ?z))"
    by (rule mp [OF t2 [THEN conjunct2] h2])
  from b have c: "poll_loops (snd (start (Some AuthError) 9 (snd (start None 7 ?z)))) = 1"
    by simp
  show ?thesis by (intro conjI a c)
qed

section \<open>Acknowledgment follows confirmation\<close>

lemma confirmed_tokens_simps:
  "confirmed_tokens [] = {}"
  "confirmed_tokens (PublishConfirmed t # tr) = insert t (confirmed_tokens tr)"
  "confirmed_tokens (PublishFailed t # tr) = confirmed_tokens tr"
  "confirmed_tokens (Acknowledged t # tr) = confirmed_tokens tr"
  "confirmed_tokens (AckFailed t # tr) = confirmed_tokens tr"
  "confirmed_tokens (Dropped t # tr) = confirmed_tokens tr"
  by (auto simp: confirmed_tokens_def)

lemma afc_append:
  "acks_follow_confirms S (a @ b) \<longleftrightarrow>
     acks_follow_confirms S a \<and> acks_follow_confirms (S \<union> confirmed_tokens a) b"
  by (induction S a rule: acks_follow_confirms.induct) (simp_all add: confirmed_tokens_simps)

lemma afc_no_acks: "\<forall>ev \<in> set tr. \<not> is_ack ev \<Longrightarrow> acks_follow_confirms S tr"
  by (induction S tr rule: acks_follow_confirms.induct) simp_all

lemma afc_take: "acks_follow_confirms S tr \<Longrightarrow> acks_follow_confirms S (take n tr)"
  using afc_append [of S "take n tr" "drop n tr"] by simp

lemma publish_events_set:
  "ev \<in> set (publish_events ok t n k) \<Longrightarrow> ev = PublishConfirmed t \<or> ev = PublishFailed t"
  by (induction n arbitrary: k) (auto split: if_splits)

lemma publish_events_confirmed:
  "PublishConfirmed t \<in> set (publish_events ok t n k) \<longleftrightarrow> (\<exists>j. k \<le> j \<and> j \<le> k + n \<and> ok j)"
proof (induction n arbitrary: k)
  case 0
  show ?case by auto
next
  case (Suc n)
  show ?case
  proof (cases "ok k")
    case True
    then show ?thesis by auto
  next
    case False
    have "(\<exists>j. Suc k \<le> j \<and> j \<le> Suc k + n \<and> ok j) \<longleftrightarrow> (\<exists>j. k \<le> j \<and> j \<le> k + Suc n \<and> ok j)"
    proof
      assume "\<exists>j. Suc k \<le> j \<and> j \<le> Suc k + n \<and> ok j"
      then obtain j where "Suc k \<le> j" "j \<le> Suc k + n" "ok j" by blast
      then have "k \<le> j \<and> j \<le> k + Suc n \<and> ok j" by simp
      then show "\<exists>j. k \<le> j \<and> j \<le> k + Suc n \<and> ok j" by blast
    next
      assume "\<exists>j. k \<le> j \<and> j \<le> k + Suc n \<and> ok j"
      then obtain j where j: "k \<le> j" "j \<le> k + Suc n" "ok j" by blast
      with False have "j \<noteq> k" by blast
      with j have "Suc k \<le> j \<and> j \<le> Suc k + n \<and> ok j" by simp
      then show "\<exists>j. Suc k \<le> j \<and> j \<le> Suc k + n \<and> ok j" by blast
    qed
    with False Suc [of "Suc k"] show ?thesis by simp
  qed
qed

lemma sink_confirms_iff:
  "sink_confirms e cfg m \<longleftrightarrow> (\<exists>j. j \<le> publish_retry_limit cfg \<and> publish_ok e m j)"
proof -
  have "set [0 ..< Suc (publish_retry_limit cfg)] = {j. j \<le> publish_retry_limit cfg}"
    by (auto simp del: upt_Suc)
  then show ?thesis
    by (simp only: sink_confirms_def list_ex_iff) blast
qed

lemma step3_no_acks: "ev \<in> set (step3_events e cfg batch) \<Longrightarrow> \<exists>t. ev = Dropped t"
  by (auto simp: step3_events_def)

lemma step4_set:
  "ev \<in> set (step4_events e cfg batch) \<Longrightarrow>
   \<exists>m \<in> set batch. validate e m \<and> (ev = PublishConfirmed (ack_token m) \<or> ev = PublishFailed (ack_token m))"
  by (auto simp: step4_events_def dest: publish_events_set)

lemma step5_set:
  "ev \<in> set (step5_events e cfg batch) \<Longrightarrow>
   \<exists>m \<in> set batch. validate e m \<and> sink_confirms e cfg m
     \<and> (ev = Acknowledged (ack_token m) \<or> ev = AckFailed (ack_token m))"
  by (auto simp: step5_events_def published_def split: if_splits)

lemma published_confirmed:
  assumes "m \<in> set (published e cfg batch)"
  shows "ack_token m \<in> confirmed_tokens (step4_events e cfg batch)"
proof -
  from assms have m: "m \<in> set batch" "validate e m" "sink_confirms e cfg m"
    by (auto simp: published_def)
  from m(3) have "PublishConfirmed (ack_token m)
      \<in> set (publish_events (publish_ok e m) (ack_token m) (publish_retry_limit cfg) 0)"
    by (simp add: publish_events_confirmed sink_confirms_iff)
  with m(1,2) show ?thesis
    by (auto simp: confirmed_tokens_def step4_events_def)
qed

lemma afc_acks:
  "acks_follow_confirms S (map (\<lambda>m. if P m then Acknowledged (f m) else AckFailed (f m)) xs)
   \<longleftrightarrow> f ` set xs \<subseteq> S"
  by (induction xs) auto

lemma afc_iteration: "acks_follow_confirms S (iteration_events e cfg batch)"
proof -
  have 3: "acks_follow_confirms S (step3_events e cfg batch)"
    by (rule afc_no_acks) (auto dest: step3_no_acks)
  have 4: "acks_follow_confirms S' (step4_events e cfg batch)" for S'
    by (rule afc_no_acks) (auto dest: step4_set)
  have 5: "acks_follow_confirms (S' \<union> confirmed_tokens (step4_events e cfg batch))
      (step5_events e cfg batch)" for S'
    unfolding step5_events_def afc_acks using published_confirmed by blast
  show ?thesis
    by (simp add: iteration_events_def afc_append 3 4 5)
qed

lemma poll_loop_trace:
  "snd (poll_loop e cfg batches (r, tr)) = tr @ concat (map (iteration_events e cfg) batches)"
  by (induction batches arbitrary: r tr) (simp_all add: iteration_def)

lemma afc_concat: "acks_follow_confirms S (concat (map (iteration_events e cfg) batches))"
  by (induction batches arbitrary: S) (simp_all add: afc_append afc_iteration)


section \<open>Counting acknowledgments\<close>

lemma filter_key_distinct:
  "distinct (map f xs) \<Longrightarrow> m \<in> set xs \<Longrightarrow>
   filter (\<lambda>x. f x = f m \<and> Q x) xs = (if Q m then [m] else [])"
proof (induction xs)
  case Nil
  then show ?case by simp
next
  case (Cons x xs)
  show ?case
  proof (cases "x = m")
    case True
    with Cons.prems have "\<forall>y \<in> set xs. f y \<noteq> f m" by (auto simp: image_iff)
    then have "filter (\<lambda>x. f x = f m \<and> Q x) xs = []" by (simp add: filter_empty_conv)
    with True show ?thesis by simp
  next
    case False
    with Cons.prems have m: "m \<in> set xs" and d: "distinct (map f xs)" by auto
    from Cons.prems m have "f x \<noteq> f m" by auto
    with Cons.IH [OF d m] show ?thesis by simp
  qed
qed

lemma count_step5_acknowledged:
  "count_list (step5_events e cfg batch) (Acknowledged t) =
     length (filter (\<lambda>m. ack_token m = t \<and> (validate e m \<and> sink_confirms e cfg m \<and> ack_ok e m)) batch)"
  by (induction batch) (simp_all add: step5_events_def published_def)

lemma count_step5_ackfailed:
  "count_list (step5_events e cfg batch) (AckFailed t) =
     length (filter (\<lambda>m. ack_token m = t \<and> (validate e m \<and> sink_confirms e cfg m \<and> \<not> ack_ok e m)) batch)"
  by (induction batch) (simp_all add: step5_events_def published_def)

lemma count_step34_ack:
  "is_ack ev \<Longrightarrow> count_list (step3_events e cfg batch) ev = 0
     \<and> count_list (step4_events e cfg batch) ev = 0"
  by (auto simp: count_list_0_iff dest: step3_no_acks step4_set)

lemma count_iteration_acknowledged:
  "count_list (iteration_events e cfg batch) (Acknowledged t) =
     length (filter (\<lambda>m. ack_token m = t \<and> (validate e m \<and> sink_confirms e cfg m \<and> ack_ok e m)) batch)"
  using count_step34_ack [of "Acknowledged t" e cfg batch]
  by (simp add: iteration_events_def count_step5_acknowledged)

lemma count_iteration_ackfailed:
  "count_list (iteration_events e cfg batch) (AckFailed t) =
     length (filter (\<lambda>m. ack_token m = t \<and> (validate e m \<and> sink_confirms e cfg m \<and> \<not> ack_ok e m)) batch)"
  using count_step34_ack [of "AckFailed t" e cfg batch]
  by (simp add: iteration_events_def count_step5_ackfailed)

lemma count_concat_acknowledged:
  "count_list (concat (map (iteration_events e cfg) batches)) (Acknowledged t) =
     length (filter (\<lambda>m. ack_token m = t \<and> (validate e m \<and> sink_confirms e cfg m \<and> ack_ok e m))
       (concat batches))"
  by (induction batches) (simp_all add: count_iteration_acknowledged)

lemma count_concat_ackfailed:
  "count_list (concat (map (iteration_events e cfg) batches)) (AckFailed t) =
     length (filter (\<lambda>m. ack_token m = t \<and> (validate e m \<and> sink_confirms e cfg m \<and> \<not> ack_ok e m))
       (concat batches))"
  by (induction batches) (simp_all add: count_iteration_ackfailed)

text \<open>
  C2, as stated, fails on the model: a valid message that the sink confirms and whose
  acknowledgment the source refuses with \<open>AckError\<close> is published and not deleted at
  the source (it will be redelivered).
\<close>

theorem published_not_acknowledged:
  "validate \<lparr>validate = (\<lambda>m. True), publish_ok = (\<lambda>m k. True), ack_ok = (\<lambda>m. False)\<rparr>
     \<lparr>msg_id = 1, msg_body = [], ack_token = 1, receive_count = 1, enqueued_at = 0, received_at = 0\<rparr>
   \<and> snd (poll_loop \<lparr>validate = (\<lambda>m. True), publish_ok = (\<lambda>m k. True), ack_ok = (\<lambda>m. False)\<rparr>
       \<lparr>batch_size = 10, publish_retry_limit = 3, poison_threshold = 5, history_capacity = 10\<rparr>
       [[\<lparr>msg_id = 1, msg_body = [], ack_token = 1, receive_count = 1, enqueued_at = 0,
          received_at = 0\<rparr>]]
       (\<lparr>counters = (\<lambda>c. 0), recent_history = []\<rparr>, []))
     = [PublishConfirmed 1, AckFailed 1]
   \<and> count_list [PublishConfirmed 1, AckFailed 1] (Acknowledged 1) = 0"
  by code_simp

text \<open>
  C2, amended: in every state of the poll loop, and at every point of its sequence of
  events, no acknowledgment of a message is issued before the sink confirmed that
  message. When the deliveries have distinct ack tokens, the acknowledgment of a
  delivered message is issued exactly once if the message is valid and the sink
  confirmed its publish within the retry budget, and never otherwise; the message is
  deleted at the source exactly once if moreover the source accepts the acknowledgment,
  and not at all if the source refuses it with \<open>AckError\<close>.
\<close>

theorem ack_after_confirm_once:
  "acks_follow_confirms {} (take n (snd (poll_loop e cfg batches (r, []))))
   \<and> acks_follow_confirms {} (snd (poll_loop e cfg batches (r, [])))
   \<and> (distinct (map ack_token (concat batches)) \<and> m \<in> set (concat batches) \<longrightarrow>
        ack_calls (ack_token m) (snd (poll_loop e cfg batches (r, [])))
          = (if validate e m \<and> sink_confirms e cfg m then 1 else 0)
        \<and> count_list (snd (poll_loop e cfg batches (r, []))) (Acknowledged (ack_token m))
          = (if validate e m \<and> sink_confirms e cfg m \<and> ack_ok e m then 1 else 0))"
proof -
  let ?tr = "snd (poll_loop e cfg batches (r, []))"
  have tr: "?tr = concat (map (iteration_events e cfg) batches)"
    by (simp add: poll_loop_trace)
  have a: "acks_follow_confirms {} ?tr"
    by (simp only: tr afc_concat)
  have b: "acks_follow_confirms {} (take n ?tr)"
    by (rule afc_take [OF a])
  have c: "ack_calls (ack_token m) ?tr = (if validate e m \<and> sink_confirms e cfg m then 1 else 0)
      \<and> count_list ?tr (Acknowledged (ack_token m))
        = (if validate e m \<and> sink_confirms e cfg m \<and> ack_ok e m then 1 else 0)"
    if d: "distinct (map ack_token (concat batches))" and m: "m \<in> set (concat batches)"
  proof -
    have c1: "count_list ?tr (Acknowledged (ack_token m))
        = (if validate e m \<and> sink_confirms e cfg m \<and> ack_ok e m then 1 else 0)"
      by (simp only: tr count_concat_acknowledged filter_key_distinct [OF d m]) simp
    have c2: "count_list ?tr (AckFailed (ack_token m))
        = (if validate e m \<and> sink_confirms e cfg m \<and> \<not> ack_ok e m then 1 else 0)"
      by (simp only: tr count_concat_ackfailed filter_key_distinct [OF d m]) simp
    have "ack_calls (ack_token m) ?tr = (if validate e m \<and> sink_confirms e cfg m then 1 else 0)"
      by (simp only: ack_calls_def c1 c2) simp
    with c1 show ?thesis by simp
  qed
  from a b c show ?thesis by blast
qed

theorem ack_after_confirm_once_witness:
  "acks_follow_confirms {} (snd (poll_loop
       \<lparr>validate = (\<lambda>m. ack_token m \<noteq> 3), publish_ok = (\<lambda>m k. ack_token m \<noteq> 2 \<or> 2 \<le> k),
         ack_ok = (\<lambda>m. ack_token m \<noteq> 4)\<rparr>
       \<lparr>batch_size = 10, publish_retry_limit = 3, poison_threshold = 5, history_capacity = 10\<rparr>
       [[delivery 1 1, delivery 2 1, delivery 3 1], [delivery 4 1]]
       (\<lparr>counters = (\<lambda>c. 0), recent_history = []\<rparr>, [])))
   \<and> ack_calls 2 (snd (poll_loop
       \<lparr>validate = (\<lambda>m. ack_token m \<noteq> 3), publish_ok = (\<lambda>m k. ack_token m \<noteq> 2 \<or> 2 \<le> k),
         ack_ok = (\<lambda>m. ack_token m \<noteq> 4)\<rparr>
       \<lparr>batch_size = 10, publish_retry_limit = 3, poison_threshold = 5, history_capacity = 10\<rparr>
       [[delivery 1 1, delivery 2 1, delivery 3 1], [delivery 4 1]]
       (\<lparr>counters = (\<lambda>c. 0), recent_history = []\<rparr>, []))) = 1
   \<and> ack_calls 3 (snd (poll_loop
       \<lparr>validate = (\<lambda>m. ack_token m \<noteq> 3), publish_ok = (\<lambda>m k. ack_token m \<noteq> 2 \<or> 2 \<le> k),
         ack_ok = (\<lambda>m. ack_token m \<noteq> 4)\<rparr>
       \<lparr>batch_size = 10, publish_retry_limit = 3, poison_threshold = 5, history_capacity = 10\<rparr>
       [[delivery 1 1, delivery 2 1, delivery 3 1], [delivery 4 1]]
       (\<lparr>counters = (\<lambda>c. 0), recent_history = []\<rparr>, []))) = 0
   \<and> count_list (snd (poll_loop
       \<lparr>validate = (\<lambda>m. ack_token m \<noteq> 3), publish_ok = (\<lambda>m k. ack_token m \<noteq> 2 \<or> 2 \<le> k),
         ack_ok = (\<lambda>m. ack_token m \<noteq> 4)\<rparr>
       \<lparr>batch_size = 10, publish_retry_limit = 3, poison_threshold = 5, history_capacity = 10\<rparr>
       [[delivery 1 1, delivery 2 1, delivery 3 1], [delivery 4 1]]
       (\<lparr>counters = (\<lambda>c. 0), recent_history = []\<rparr>, []))) (Acknowledged 4) = 0"
proof -
  let ?e = "\<lparr>validate = (\<lambda>m. ack_token m \<noteq> 3), publish_ok = (\<lambda>m k. ack_token m \<noteq> 2 \<or> 2 \<le> k),
         ack_ok = (\<lambda>m. ack_token m \<noteq> 4)\<rparr>"
  let ?cfg = "\<lparr>batch_size = 10, publish_retry_limit = 3, poison_threshold = 5, history_capacity = 10\<rparr>"
  let ?bs = "[[delivery 1 1, delivery 2 1, delivery 3 1], [delivery 4 1]]"
  let ?r = "\<lparr>counters = (\<lambda>c. 0), recent_history = []\<rparr>"
  have d: "distinct (map ack_token (concat ?bs))" by (simp add: delivery_def)
  have m2: "delivery 2 1 \<in> set (concat ?bs)" by simp
  have m3: "delivery 3 1 \<in> set (concat ?bs)" by simp
  have m4: "delivery 4 1 \<in> set (concat ?bs)" by simp
  have v2: "validate ?e (delivery 2 1) \<and> sink_confirms ?e ?cfg (delivery 2 1)"
    by code_simp
  have v3: "\<not> validate ?e (delivery 3 1)" by (simp add: delivery_def)
  have v4: "\<not> ack_ok ?e (delivery 4 1)" by (simp add: delivery_def)
  have t2: "ack_token (delivery 2 1) = 2" by (simp add: delivery_def)
  have t3: "ack_token (delivery 3 1) = 3" by (simp add: delivery_def)
  have t4: "ack_token (delivery 4 1) = 4" by (simp add: delivery_def)
  note w2 = ack_after_confirm_once [of 0 ?e ?cfg ?bs ?r "delivery 2 1"]
  note w3 = ack_after_confirm_once [of 0 ?e ?cfg ?bs ?r "delivery 3 1"]
  note w4 = ack_after_confirm_once [of 0 ?e ?cfg ?bs ?r "delivery 4 1"]
  from w2 [THEN conjunct2, THEN conjunct1]
    mp [OF w2 [THEN conjunct2, THEN conjunct2] conjI [OF d m2]] v2
  have a: "acks_follow_confirms {} (snd (poll_loop ?e ?cfg ?bs (?r, [])))
      \<and> ack_calls 2 (snd (poll_loop ?e ?cfg ?bs (?r, []))) = 1"
    by (simp only: t2 if_True simp_thms)
  from mp [OF w3 [THEN conjunct2, THEN conjunct2] conjI [OF d m3]] v3
  have b: "ack_calls 3 (snd (poll_loop ?e ?cfg ?bs (?r, []))) = 0"
    by (simp only: t3 if_False simp_thms)
  from mp [OF w4 [THEN conjunct2, THEN conjunct2] conjI [OF d m4]] v4
  have c: "count_list (snd (poll_loop ?e ?cfg ?bs (?r, []))) (Acknowledged 4) = 0"
    by (simp only: t4 if_False simp_thms)
  from a b c show ?thesis by (simp only: simp_thms)
qed

section \<open>The scenario of five messages\<close>

lemma poison_filter:
  "filter (poison e cfg) batch
     = filter (\<lambda>m. poison_threshold cfg < receive_count m) (filter (\<lambda>m. \<not> validate e m) batch)"
  by (induction batch) (simp_all add: poison_def)

lemma singleton_filter:
  assumes "length (filter P xs) = 1" and "x \<in> set xs" and "P x"
  shows "filter P xs = [x]"
proof -
  from assms(1) obtain y where y: "filter P xs = [y]"
    by (cases "filter P xs") simp_all
  from assms(2,3) have "x \<in> set (filter P xs)" by simp
  with y show ?thesis by simp
qed

text \<open>
  C3, as stated, fails on the model: of five polled messages four pass validation and
  one fails, and the sink confirms no publish attempt of one of the four; then three
  messages are processed and three acknowledged.
\<close>

theorem five_polled_three_processed:
  "length [delivery 1 1, delivery 2 1, delivery 3 7, delivery 4 1, delivery 5 1] = 5
   \<and> length (filter (validate
       \<lparr>validate = (\<lambda>m. ack_token m \<noteq> 3), publish_ok = (\<lambda>m k. ack_token m \<noteq> 2),
         ack_ok = (\<lambda>m. True)\<rparr>)
       [delivery 1 1, delivery 2 1, delivery 3 7, delivery 4 1, delivery 5 1]) = 4
   \<and> counters (fst (iteration
       \<lparr>validate = (\<lambda>m. ack_token m \<noteq> 3), publish_ok = (\<lambda>m k. ack_token m \<noteq> 2),
         ack_ok = (\<lambda>m. True)\<rparr>
       \<lparr>batch_size = 10, publish_retry_limit = 3, poison_threshold = 5, history_capacity = 10\<rparr>
       [delivery 1 1, delivery 2 1, delivery 3 7, delivery 4 1, delivery 5 1]
       \<lparr>counters = (\<lambda>c. 0), recent_history = []\<rparr>)) MessagesProcessed = 3
   \<and> length (filter is_ack (snd (iteration
       \<lparr>validate = (\<lambda>m. ack_token m \<noteq> 3), publish_ok = (\<lambda>m k. ack_token m \<noteq> 2),
         ack_ok = (\<lambda>m. True)\<rparr>
       \<lparr>batch_size = 10, publish_retry_limit = 3, poison_threshold = 5, history_capacity = 10\<rparr>
       [delivery 1 1, delivery 2 1, delivery 3 7, delivery 4 1, delivery 5 1]
       \<lparr>counters = (\<lambda>c. 0), recent_history = []\<rparr>))) = 3"
  by code_simp


text \<open>
  C3, amended: for one iteration on a batch of 5 messages with distinct ack tokens, of
  which 4 pass validation and 1 fails, where the sink confirms each of the 4 within the
  retry budget: \<open>messages_processed\<close> increases by exactly 4; the failing message is
  neither published (no attempt) nor acknowledged; the unprocessable count increases by
  1 if its \<open>receive_count\<close> exceeds the poison threshold and by 0 otherwise; exactly 4
  acknowledgments are issued, one for each valid message, and each deletes its message
  when the source accepts it.
\<close>

theorem five_polled_four_valid:
  assumes "length batch = 5" and "length (filter (validate e) batch) = 4"
    and "distinct (map ack_token batch)"
    and "bad \<in> set batch" and "\<not> validate e bad"
    and "\<forall>m \<in> set batch. validate e m \<longrightarrow> sink_confirms e cfg m"
  shows "counters (fst (iteration e cfg batch r)) MessagesProcessed
        = counters r MessagesProcessed + 4
    \<and> PublishConfirmed (ack_token bad) \<notin> set (snd (iteration e cfg batch r))
    \<and> PublishFailed (ack_token bad) \<notin> set (snd (iteration e cfg batch r))
    \<and> Acknowledged (ack_token bad) \<notin> set (snd (iteration e cfg batch r))
    \<and> AckFailed (ack_token bad) \<notin> set (snd (iteration e cfg batch r))
    \<and> counters (fst (iteration e cfg batch r)) Unprocessable
        = counters r Unprocessable + (if poison_threshold cfg < receive_count bad then 1 else 0)
    \<and> length (filter is_ack (snd (iteration e cfg batch r))) = 4
    \<and> (\<forall>m \<in> set batch. validate e m \<longrightarrow>
          ack_calls (ack_token m) (snd (iteration e cfg batch r)) = 1
          \<and> count_list (snd (iteration e cfg batch r)) (Acknowledged (ack_token m))
              = (if ack_ok e m then 1 else 0))"
proof -
  let ?tr = "snd (iteration e cfg batch r)"
  have tr: "?tr = iteration_events e cfg batch" by (simp add: iteration_def)
  have pub: "published e cfg batch = filter (validate e) batch"
    unfolding published_def
    by (rule filter_id_conv [THEN iffD2]) (use assms(6) in auto)
  have p: "counters (fst (iteration e cfg batch r)) MessagesProcessed
        = counters r MessagesProcessed + 4"
    by (simp add: iteration_def counters_iteration_registry pub assms(2))
  have inj: "m = bad" if "m \<in> set batch" "ack_token m = ack_token bad" for m
    using that assms(3,4) by (auto simp: distinct_map inj_on_def)
  have no4: "PublishConfirmed (ack_token bad) \<notin> set ?tr \<and> PublishFailed (ack_token bad) \<notin> set ?tr
      \<and> Acknowledged (ack_token bad) \<notin> set ?tr \<and> AckFailed (ack_token bad) \<notin> set ?tr"
    unfolding tr iteration_events_def
    using assms(5) inj by (auto dest!: step3_no_acks step4_set step5_set)
  have "length (filter (validate e) batch) + length (filter (\<lambda>m. \<not> validate e m) batch)
      = length batch"
    by (rule sum_length_filter_compl)
  with assms(1,2) have "length (filter (\<lambda>m. \<not> validate e m) batch) = 1" by simp
  from singleton_filter [OF this assms(4)] assms(5)
  have inv: "filter (\<lambda>m. \<not> validate e m) batch = [bad]" by simp
  have u: "counters (fst (iteration e cfg batch r)) Unprocessable
        = counters r Unprocessable + (if poison_threshold cfg < receive_count bad then 1 else 0)"
    by (simp add: iteration_def counters_iteration_registry poison_filter inv)
  have f3: "filter is_ack (step3_events e cfg batch) = []"
    by (auto simp: filter_empty_conv dest: step3_no_acks)
  have f4: "filter is_ack (step4_events e cfg batch) = []"
    by (auto simp: filter_empty_conv dest: step4_set)
  have f5: "filter is_ack (step5_events e cfg batch) = step5_events e cfg batch"
    by (auto simp: filter_id_conv dest: step5_set)
  have n: "length (filter is_ack ?tr) = 4"
    by (simp add: tr iteration_events_def f3 f4 f5) (simp add: step5_events_def pub assms(2))
  have each: "ack_calls (ack_token m) ?tr = 1
      \<and> count_list ?tr (Acknowledged (ack_token m)) = (if ack_ok e m then 1 else 0)"
    if m: "m \<in> set batch" and v: "validate e m" for m
  proof -
    from m v assms(6) have s: "sink_confirms e cfg m" by blast
    have a: "count_list ?tr (Acknowledged (ack_token m)) = (if ack_ok e m then 1 else 0)"
      by (simp only: tr count_iteration_acknowledged filter_key_distinct [OF assms(3) m])
        (simp add: v s)
    have b: "count_list ?tr (AckFailed (ack_token m)) = (if ack_ok e m then 0 else 1)"
      by (simp only: tr count_iteration_ackfailed filter_key_distinct [OF assms(3) m])
        (simp add: v s)
    from a b show ?thesis by (simp add: ack_calls_def)
  qed
  from p no4 u n each show ?thesis by blast
qed

theorem five_polled_four_valid_witness:
  "counters (fst (iteration
       \<lparr>validate = (\<lambda>m. ack_token m \<noteq> 3), publish_ok = (\<lambda>m k. ack_token m \<noteq> 2 \<or> 2 \<le> k),
         ack_ok = (\<lambda>m. True)\<rparr>
       \<lparr>batch_size = 10, publish_retry_limit = 3, poison_threshold = 5, history_capacity = 10\<rparr>
       [delivery 1 1, delivery 2 1, delivery 3 7, delivery 4 1, delivery 5 1]
       \<lparr>counters = (\<lambda>c. 0), recent_history = []\<rparr>)) MessagesProcessed = 4
   \<and> counters (fst (iteration
       \<lparr>validate = (\<lambda>m. ack_token m \<noteq> 3), publish_ok = (\<lambda>m k. ack_token m \<noteq> 2 \<or> 2 \<le> k),
         ack_ok = (\<lambda>m. True)\<rparr>
       \<lparr>batch_size = 10, publish_retry_limit = 3, poison_threshold = 5, history_capacity = 10\<rparr>
       [delivery 1 1, delivery 2 1, delivery 3 7, delivery 4 1, delivery 5 1]
       \<lparr>counters = (\<lambda>c. 0), recent_history = []\<rparr>)) Unprocessable = 1
   \<and> Acknowledged 3 \<notin> set (snd (iteration
       \<lparr>validate = (\<lambda>m. ack_token m \<noteq> 3), publish_ok = (\<lambda>m k. ack_token m \<noteq> 2 \<or> 2 \<le> k),
         ack_ok = (\<lambda>m. True)\<rparr>
       \<lparr>batch_size = 10, publish_retry_limit = 3, poison_threshold = 5, history_capacity = 10\<rparr>
       [delivery 1 1, delivery 2 1, delivery 3 7, delivery 4 1, delivery 5 1]
       \<lparr>counters = (\<lambda>c. 0), recent_history = []\<rparr>))
   \<and> length (filter is_ack (snd (iteration
       \<lparr>validate = (\<lambda>m. ack_token m \<noteq> 3), publish_ok = (\<lambda>m k. ack_token m \<noteq> 2 \<or> 2 \<le> k),
         ack_ok = (\<lambda>m. True)\<rparr>
       \<lparr>batch_size = 10, publish_retry_limit = 3, poison_threshold = 5, history_capacity = 10\<rparr>
       [delivery 1 1, delivery 2 1, delivery 3 7, delivery 4 1, delivery 5 1]
       \<lparr>counters = (\<lambda>c. 0), recent_history = []\<rparr>))) = 4
   \<and> count_list (snd (iteration
       \<lparr>validate = (\<lambda>m. ack_token m \<noteq> 3), publish_ok = (\<lambda>m k. ack_token m \<noteq> 2 \<or> 2 \<le> k),
         ack_ok = (\<lambda>m. True)\<rparr>
       \<lparr>batch_size = 10, publish_retry_limit = 3, poison_threshold = 5, history_capacity = 10\<rparr>
       [delivery 1 1, delivery 2 1, delivery 3 7, delivery 4 1, delivery 5 1]
       \<lparr>counters = (\<lambda>c. 0), recent_history = []\<rparr>)) (Acknowledged 2) = 1"
proof -
  let ?e = "\<lparr>validate = (\<lambda>m. ack_token m \<noteq> 3), publish_ok = (\<lambda>m k. ack_token m \<noteq> 2 \<or> 2 \<le> k),
         ack_ok = (\<lambda>m. True)\<rparr>"
  let ?cfg = "\<lparr>batch_size = 10, publish_retry_limit = 3, poison_threshold = 5, history_capacity = 10\<rparr>"
  let ?b = "[delivery 1 1, delivery 2 1, delivery 3 7, delivery 4 1, delivery 5 1]"
  let ?r = "\<lparr>counters = (\<lambda>c. 0), recent_history = []\<rparr>"
  have h1: "length ?b = 5" by simp
  have h2: "length (filter (validate ?e) ?b) = 4" by (simp add: delivery_def)
  have h3: "distinct (map ack_token ?b)" by (simp add: delivery_def)
  have h4: "delivery 3 7 \<in> set ?b" by simp
  have h5: "\<not> validate ?e (delivery 3 7)" by (simp add: delivery_def)
  have h6: "\<forall>m \<in> set ?b. validate ?e m \<longrightarrow> sink_confirms ?e ?cfg m"
    by code_simp
  note t = five_polled_four_valid [OF h1 h2 h3 h4 h5 h6, of ?r]
  have m2: "delivery 2 1 \<in> set ?b" by simp
  have v2: "validate ?e (delivery 2 1) = True" "ack_ok ?e (delivery 2 1) = True"
    by (simp_all add: delivery_def)
  have t2: "ack_token (delivery 2 1) = 2" by (simp add: delivery_def)
  have t3: "ack_token (delivery 3 7) = 3" "receive_count (delivery 3 7) = 7"
    by (simp_all add: delivery_def)
  have c0: "counters ?r MessagesProcessed = 0" "counters ?r Unprocessable = 0" "poison_threshold ?cfg = 5"
    by simp_all
  from t have a: "counters (fst (iteration ?e ?cfg ?b ?r)) MessagesProcessed = 4"
    by (simp add: c0)
  from t have b: "counters (fst (iteration ?e ?cfg ?b ?r)) Unprocessable = 1"
    by (simp add: c0 t3)
  from t have c: "Acknowledged 3 \<notin> set (snd (iteration ?e ?cfg ?b ?r))"
    by (simp add: t3)
  from t have d: "length (filter is_ack (snd (iteration ?e ?cfg ?b ?r))) = 4"
    by simp
  from t have "\<forall>m \<in> set ?b. validate ?e m \<longrightarrow>
          ack_calls (ack_token m) (snd (iteration ?e ?cfg ?b ?r)) = 1
          \<and> count_list (snd (iteration ?e ?cfg ?b ?r)) (Acknowledged (ack_token m))
              = (if ack_ok ?e m then 1 else 0)"
    by (elim conjE)
  from bspec [OF this m2]
  have e: "count_list (snd (iteration ?e ?cfg ?b ?r)) (Acknowledged 2) = 1"
    by (simp only: v2 t2 if_True simp_thms)
  from a b c d e show ?thesis by (simp only: simp_thms)
qed

section \<open>Stop: reaching \<open>STOPPED\<close>\<close>

lemma length_publish_events: "length (publish_events ok t n k) \<le> Suc n"
  by (induction n arbitrary: k) (simp_all add: le_SucI)

lemma first_attempts: "1 \<le> length (publish_events ok t n k)"
  by (cases n) simp_all

lemma publish_attempts_le:
  "publish_attempts e cfg batch \<le> Suc (publish_retry_limit cfg) * length batch"
proof (induction batch)
  case Nil
  show ?case by (simp add: publish_attempts_def step4_events_def)
next
  case (Cons m batch)
  have step: "publish_attempts e cfg (m # batch)
      \<le> Suc (publish_retry_limit cfg) + publish_attempts e cfg batch"
    using length_publish_events [of "publish_ok e m" "ack_token m" "publish_retry_limit cfg" 0]
    by (simp add: publish_attempts_def step4_events_def)
  with Cons.IH show ?case by simp
qed

lemma publish_attempts_ge:
  "length (filter (validate e) batch) \<le> publish_attempts e cfg batch"
proof (induction batch)
  case Nil
  show ?case by (simp add: publish_attempts_def step4_events_def)
next
  case (Cons m batch)
  from Cons.IH first_attempts [of "publish_ok e m" "ack_token m" "publish_retry_limit cfg" 0]
  show ?case by (simp add: publish_attempts_def step4_events_def)
qed

lemma iteration_time_le:
  "iteration_time tm e cfg batch
     \<le> poll_timeout tm + publish_timeout tm * (Suc (publish_retry_limit cfg) * length batch)"
  unfolding iteration_time_def
  by (rule add_left_mono, rule mult_le_mono2, rule publish_attempts_le)

text \<open>
  C7, as stated, fails on the model: with a poll timeout of 20, a publish timeout of 30
  and a retry limit of 3, the claimed bound is 110. An in-flight batch of five valid
  messages that the sink does not confirm takes 20 publish attempts, which can block
  for 620 with the poll; the five first attempts alone can block for 170.
\<close>

theorem stop_bound_exceeded:
  "claimed_stop_bound \<lparr>poll_timeout = 20, publish_timeout = 30\<rparr>
       \<lparr>batch_size = 10, publish_retry_limit = 3, poison_threshold = 5, history_capacity = 10\<rparr> = 110
   \<and> publish_attempts \<lparr>validate = (\<lambda>m. True), publish_ok = (\<lambda>m k. False), ack_ok = (\<lambda>m. True)\<rparr>
       \<lparr>batch_size = 10, publish_retry_limit = 3, poison_threshold = 5, history_capacity = 10\<rparr>
       [delivery 1 1, delivery 2 1, delivery 3 1, delivery 4 1, delivery 5 1] = 20
   \<and> iteration_time \<lparr>poll_timeout = 20, publish_timeout = 30\<rparr>
       \<lparr>validate = (\<lambda>m. True), publish_ok = (\<lambda>m k. False), ack_ok = (\<lambda>m. True)\<rparr>
       \<lparr>batch_size = 10, publish_retry_limit = 3, poison_threshold = 5, history_capacity = 10\<rparr>
       [delivery 1 1, delivery 2 1, delivery 3 1, delivery 4 1, delivery 5 1] = 620
   \<and> poll_timeout \<lparr>poll_timeout = 20, publish_timeout = 30\<rparr> + publish_timeout \<lparr>poll_timeout = 20, publish_timeout = 30\<rparr>
       * length (filter (validate \<lparr>validate = (\<lambda>m. True), publish_ok = (\<lambda>m k. False), ack_ok = (\<lambda>m. True)\<rparr>)
           [delivery 1 1, delivery 2 1, delivery 3 1, delivery 4 1, delivery 5 1]) = 170
   \<and> length [delivery 1 1, delivery 2 1, delivery 3 1, delivery 4 1, delivery 5 1]
       \<le> batch_size \<lparr>batch_size = 10, publish_retry_limit = 3, poison_threshold = 5, history_capacity = 10\<rparr>"
  by code_simp

text \<open>
  C7, amended: \<open>stop()\<close> called while the Engine is \<open>RUNNING\<close> sets it \<open>STOPPING\<close>; the
  iteration in flight completes its batch, the next turn of the loop observes the
  cancellation at its top and the Engine is \<open>STOPPED\<close>, with its poll loop ended and no
  further batch polled or processed, then or later. The iteration in flight makes one
  poll and at most \<open>publish_retry_limit + 1\<close> publish attempts for each message of
  its batch, so the time it can block in poll and publish calls is at most
  \<open>poll_timeout + publish_timeout \<times> (publish_retry_limit + 1) \<times> n\<close> for a batch
  of \<open>n\<close> messages, and \<open>n\<close> is at most \<open>batch_size\<close>.
\<close>

theorem stop_reaches_stopped:
  "(lifecycle s = RUNNING \<longrightarrow>
      lifecycle (stop s) = STOPPING
      \<and> lifecycle (loop_iteration e cfg next (stop s)) = STOPPED
      \<and> metrics_registry (loop_iteration e cfg next (stop s)) = metrics_registry s
      \<and> lifecycle (stop_in_flight e cfg inflight next s) = STOPPED
      \<and> metrics_registry (stop_in_flight e cfg inflight next s)
          = iteration_registry e cfg inflight (metrics_registry s)
      \<and> poll_loops (stop_in_flight e cfg inflight next s) = poll_loops s - 1
      \<and> loop_iteration e cfg later (stop_in_flight e cfg inflight next s)
          = stop_in_flight e cfg inflight next s)
   \<and> publish_attempts e cfg inflight \<le> Suc (publish_retry_limit cfg) * length inflight
   \<and> iteration_time tm e cfg inflight
        \<le> poll_timeout tm + publish_timeout tm * (Suc (publish_retry_limit cfg) * length inflight)
   \<and> (length inflight \<le> batch_size cfg \<longrightarrow>
        iteration_time tm e cfg inflight
          \<le> poll_timeout tm + publish_timeout tm * (Suc (publish_retry_limit cfg) * batch_size cfg))"
proof -
  have a: "lifecycle (stop s) = STOPPING
      \<and> lifecycle (loop_iteration e cfg next (stop s)) = STOPPED
      \<and> metrics_registry (loop_iteration e cfg next (stop s)) = metrics_registry s
      \<and> lifecycle (stop_in_flight e cfg inflight next s) = STOPPED
      \<and> metrics_registry (stop_in_flight e cfg inflight next s)
          = iteration_registry e cfg inflight (metrics_registry s)
      \<and> poll_loops (stop_in_flight e cfg inflight next s) = poll_loops s - 1
      \<and> loop_iteration e cfg later (stop_in_flight e cfg inflight next s)
          = stop_in_flight e cfg inflight next s"
    if "lifecycle s = RUNNING"
    using that by (simp add: stop_in_flight_def stop_def loop_iteration_def)
  have b: "publish_attempts e cfg inflight \<le> Suc (publish_retry_limit cfg) * length inflight"
    by (rule publish_attempts_le)
  have c: "iteration_time tm e cfg inflight
        \<le> poll_timeout tm + publish_timeout tm * (Suc (publish_retry_limit cfg) * length inflight)"
    by (rule iteration_time_le)
  have d: "iteration_time tm e cfg inflight
          \<le> poll_timeout tm + publish_timeout tm * (Suc (publish_retry_limit cfg) * batch_size cfg)"
    if n: "length inflight \<le> batch_size cfg"
  proof -
    from n have "Suc (publish_retry_limit cfg) * length inflight
        \<le> Suc (publish_retry_limit cfg) * batch_size cfg"
      by (rule mult_le_mono2)
    then have "publish_timeout tm * (Suc (publish_retry_limit cfg) * length inflight)
        \<le> publish_timeout tm * (Suc (publish_retry_limit cfg) * batch_size cfg)"
      by (rule mult_le_mono2)
    with c show ?thesis by linarith
  qed
  from a b c d show ?thesis by blast
qed

theorem stop_reaches_stopped_witness:
  "lifecycle (stop_in_flight
       \<lparr>validate = (\<lambda>m. ack_token m \<noteq> 3), publish_ok = (\<lambda>m k. ack_token m \<noteq> 2 \<or> 2 \<le> k),
        ack_ok = (\<lambda>m. True)\<rparr>
       \<lparr>batch_size = 10, publish_retry_limit = 3, poison_threshold = 5, history_capacity = 10\<rparr>
       [delivery 1 1, delivery 2 1, delivery 3 7] [delivery 4 1]
       \<lparr>lifecycle = RUNNING, started_at = Some 3, last_error = None,
        metrics_registry = \<lparr>counters = (\<lambda>c. 0), recent_history = []\<rparr>, poll_loops = 1\<rparr>) = STOPPED
   \<and> poll_loops (stop_in_flight
       \<lparr>validate = (\<lambda>m. ack_token m \<noteq> 3), publish_ok = (\<lambda>m k. ack_token m \<noteq> 2 \<or> 2 \<le> k),
        ack_ok = (\<lambda>m. True)\<rparr>
       \<lparr>batch_size = 10, publish_retry_limit = 3, poison_threshold = 5, history_capacity = 10\<rparr>
       [delivery 1 1, delivery 2 1, delivery 3 7] [delivery 4 1]
       \<lparr>lifecycle = RUNNING, started_at = Some 3, last_error = None,
        metrics_registry = \<lparr>counters = (\<lambda>c. 0), recent_history = []\<rparr>, poll_loops = 1\<rparr>) = 0
   \<and> iteration_time \<lparr>poll_timeout = 20, publish_timeout = 30\<rparr>
       \<lparr>validate = (\<lambda>m. ack_token m \<noteq> 3), publish_ok = (\<lambda>m k. ack_token m \<noteq> 2 \<or> 2 \<le> k),
        ack_ok = (\<lambda>m. True)\<rparr>
       \<lparr>batch_size = 10, publish_retry_limit = 3, poison_threshold = 5, history_capacity = 10\<rparr>
       [delivery 1 1, delivery 2 1, delivery 3 7] \<le> 1220"
proof -
  let ?e = "\<lparr>validate = (\<lambda>m. ack_token m \<noteq> 3), publish_ok = (\<lambda>m k. ack_token m \<noteq> 2 \<or> 2 \<le> k),
        ack_ok = (\<lambda>m. True)\<rparr>"
  let ?cfg = "\<lparr>batch_size = 10, publish_retry_limit = 3, poison_threshold = 5, history_capacity = 10\<rparr>"
  let ?s = "\<lparr>lifecycle = RUNNING, started_at = Some 3, last_error = None,
        metrics_registry = \<lparr>counters = (\<lambda>c. 0), recent_history = []\<rparr>, poll_loops = 1\<rparr>"
  let ?tm = "\<lparr>poll_timeout = 20, publish_timeout = 30\<rparr>"
  let ?b = "[delivery 1 1, delivery 2 1, delivery 3 7]"
  have h: "lifecycle ?s = RUNNING" by simp
  have n: "length ?b \<le> batch_size ?cfg" by simp
  note t = stop_reaches_stopped [of ?s ?e ?cfg "[delivery 4 1]" ?b "[]" ?tm]
  note r = mp [OF t [THEN conjunct1] h]
  have a: "lifecycle (stop_in_flight ?e ?cfg ?b [delivery 4 1] ?s) = STOPPED"
    by (rule r [THEN conjunct2, THEN conjunct2, THEN conjunct2, THEN conjunct1])
  have "poll_loops (stop_in_flight ?e ?cfg ?b [delivery 4 1] ?s) = poll_loops ?s - 1"
    by (rule r [THEN conjunct2, THEN conjunct2, THEN conjunct2, THEN conjunct2, THEN conjunct2,
      THEN conjunct1])
  then have b: "poll_loops (stop_in_flight ?e ?cfg ?b [delivery 4 1] ?s) = 0"
    by simp
  have "iteration_time ?tm ?e ?cfg ?b
      \<le> poll_timeout ?tm + publish_timeout ?tm * (Suc (publish_retry_limit ?cfg) * batch_size ?cfg)"
    by (rule mp [OF t [THEN conjunct2, THEN conjunct2, THEN conjunct2] n])
  then have c: "iteration_time ?tm ?e ?cfg ?b \<le> 1220"
    by simp
  show ?thesis by (intro conjI a b c)
qed

end
